theory Spec2Isabelle
  imports Complex_Main "HOL-Library.Word"
begin

unbundle bit_operations_syntax

section \<open>Constants and the move record (bot026.cpp)\<close>

text \<open>
  The engine of \<^verbatim>\<open>src/bots/bot026.cpp\<close>. Cells of the 8x8 grid are \<^verbatim>\<open>int8_t\<close> values
  holding one of the four constants below; they are modelled as \<open>int\<close>.
\<close>

abbreviation (input) NUM_SQUARES :: nat where "NUM_SQUARES \<equiv> 64"
abbreviation (input) EMPTY :: int where "EMPTY \<equiv> 0"
abbreviation (input) BLACK :: int where "BLACK \<equiv> 1"
abbreviation (input) WHITE :: int where "WHITE \<equiv> - 1"
abbreviation (input) OBSTACLE :: int where "OBSTACLE \<equiv> 2"

definition MAX_NODES :: nat where "MAX_NODES = 10000000"
definition MAX_MOVES_POOL :: nat where "MAX_MOVES_POOL = 70000000"

text \<open>
  The table \<^verbatim>\<open>DIRECTIONS[8][2]\<close>, rows in index order N, S, W, E, NW, NE, SW, SE.
  A loop \<^verbatim>\<open>for (d = 0; d < 8; d++)\<close> over the table is a traversal of \<open>all_dirs\<close>.
\<close>

datatype dir = N | S | W | E | NW | NE | SW | SE

fun DIRECTIONS :: "dir \<Rightarrow> int \<times> int" where
  "DIRECTIONS N = (- 1, 0)"
| "DIRECTIONS S = (1, 0)"
| "DIRECTIONS W = (0, - 1)"
| "DIRECTIONS E = (0, 1)"
| "DIRECTIONS NW = (- 1, - 1)"
| "DIRECTIONS NE = (- 1, 1)"
| "DIRECTIONS SW = (1, - 1)"
| "DIRECTIONS SE = (1, 1)"

definition all_dirs :: "dir list" where
  "all_dirs = [N, S, W, E, NW, NE, SW, SE]"

text \<open>The cast \<^verbatim>\<open>(int8_t)a\<close> of the \<^verbatim>\<open>Move\<close> constructor.\<close>

definition int8 :: "int \<Rightarrow> int" where
  "int8 a = sint (word_of_int a :: 8 word)"

record Move =
  x0 :: int
  y0 :: int
  x1 :: int
  y1 :: int
  x2 :: int
  y2 :: int

definition mk_Move :: "int \<Rightarrow> int \<Rightarrow> int \<Rightarrow> int \<Rightarrow> int \<Rightarrow> int \<Rightarrow> Move" where
  "mk_Move a b c d e f =
     \<lparr>x0 = int8 a, y0 = int8 b, x1 = int8 c, y1 = int8 d, x2 = int8 e, y2 = int8 f\<rparr>"

text \<open>The sentinel \<^verbatim>\<open>Move(-1,-1,-1,-1,-1,-1)\<close>.\<close>

definition no_move :: Move where
  "no_move = mk_Move (- 1) (- 1) (- 1) (- 1) (- 1) (- 1)"

section \<open>Search nodes and the two pools\<close>

text \<open>
  A pointer \<^verbatim>\<open>MCTSNode*\<close> is \<open>None\<close> (\<^verbatim>\<open>nullptr\<close>) or \<open>Some i\<close>, the address of
  \<^verbatim>\<open>node_pool[i]\<close>. The type \<^verbatim>\<open>float\<close> is the type parameter \<open>'f\<close>: nothing is
  fixed about its values.
\<close>

record 'f MCTSNode =
  first_child :: "nat option"
  next_sibling :: "nat option"
  parent :: "nat option"
  move :: Move
  moves_start_idx :: int
  moves_count :: int
  wins :: "'f"
  visits :: int
  player_just_moved :: int

text \<open>
  The global storage: both pools with their bump pointers, the generator state of
  \<^verbatim>\<open>fast_rand\<close>, and the two globals that track the most visited root child.
\<close>

record 'f globals =
  move_pool :: "nat \<Rightarrow> Move"
  move_pool_ptr :: nat
  node_pool :: "nat \<Rightarrow> 'f MCTSNode"
  node_pool_ptr :: nat
  xorshift_state :: "32 word"
  best_child_global :: "nat option"
  max_visits_global :: int

section \<open>Board, move generation and move application\<close>

type_synonym Board = "int list"

text \<open>The constructor \<^verbatim>\<open>Board()\<close>: all cells empty, then \<^verbatim>\<open>init_board\<close>.\<close>

definition init_board :: "Board \<Rightarrow> Board" where
  "init_board grid =
     grid[0*8 + 2 := BLACK, 2*8 + 0 := BLACK, 5*8 + 0 := BLACK, 7*8 + 2 := BLACK,
          0*8 + 5 := WHITE, 2*8 + 7 := WHITE, 5*8 + 7 := WHITE, 7*8 + 5 := WHITE]"

definition new_Board :: Board where
  "new_Board = init_board (replicate NUM_SQUARES EMPTY)"

text \<open>
  The innermost loop of \<^verbatim>\<open>get_legal_moves\<close> (the shot along direction \<open>ad\<close>). The
  loop state is the current shot cell, the globals and the running \<^verbatim>\<open>count\<close>.
\<close>

definition steps_to_edge :: "dir \<Rightarrow> int \<Rightarrow> int \<Rightarrow> nat" where
  "steps_to_edge d x y =
     (if fst (DIRECTIONS d) = 1 then nat (8 - x)
      else if fst (DIRECTIONS d) = - 1 then nat (x + 1)
      else if snd (DIRECTIONS d) = 1 then nat (8 - y)
      else nat (y + 1))"

function shot_loop ::
  "Board \<Rightarrow> nat \<Rightarrow> int \<Rightarrow> int \<Rightarrow> int \<Rightarrow> int \<Rightarrow> dir \<Rightarrow> int \<Rightarrow> int \<Rightarrow> 'f globals \<times> int
     \<Rightarrow> 'f globals \<times> int" where
  "shot_loop grid p px py nx ny ad ax ay gc =
     (let ax' = ax + fst (DIRECTIONS ad);
          ay' = ay + snd (DIRECTIONS ad)
      in if ax' < 0 \<or> ax' \<ge> 8 \<or> ay' < 0 \<or> ay' \<ge> 8 then gc
         else let a_idx = ax' * 8 + ay'
              in if grid ! nat a_idx \<noteq> EMPTY \<and> a_idx \<noteq> int p then gc
                 else if move_pool_ptr (fst gc) < MAX_MOVES_POOL
                 then shot_loop grid p px py nx ny ad ax' ay'
                        ((fst gc)\<lparr>move_pool := (move_pool (fst gc))
                                      (move_pool_ptr (fst gc) := mk_Move px py nx ny ax' ay'),
                                   move_pool_ptr := move_pool_ptr (fst gc) + 1\<rparr>,
                         snd gc + 1)
                 else gc)"
  by pat_completeness auto
termination
proof (relation "measure (\<lambda>(grid, p, px, py, nx, ny, ad, ax, ay, gc). steps_to_edge ad ax ay)")
  show "wf (measure (\<lambda>(grid, p, px, py, nx, ny, ad, ax, ay, gc). steps_to_edge ad ax ay))"
    by simp
next
  fix grid :: Board and p :: nat and px py nx ny ax ay :: int and ad :: dir
    and gc :: "'f globals \<times> int" and ax' ay' a_idx :: int
  assume "ax' = ax + fst (DIRECTIONS ad)" "ay' = ay + snd (DIRECTIONS ad)"
    "\<not> (ax' < 0 \<or> 8 \<le> ax' \<or> ay' < 0 \<or> 8 \<le> ay')"
  then have "steps_to_edge ad ax' ay' < steps_to_edge ad ax ay"
    by (cases ad) (auto simp: steps_to_edge_def)
  then show "((grid, p, px, py, nx, ny, ad, ax', ay',
        (fst gc)\<lparr>move_pool := (move_pool (fst gc))
                      (move_pool_ptr (fst gc) := mk_Move px py nx ny ax' ay'),
                 move_pool_ptr := move_pool_ptr (fst gc) + 1\<rparr>, snd gc + 1),
       grid, p, px, py, nx, ny, ad, ax, ay, gc)
      \<in> measure (\<lambda>(grid, p, px, py, nx, ny, ad, ax, ay, gc). steps_to_edge ad ax ay)"
    by simp
qed

text \<open>
  The loop over the landing cells along direction \<open>d\<close>; at each landing cell the
  shot phase runs the inner loop for all eight directions.
\<close>

function move_loop ::
  "Board \<Rightarrow> nat \<Rightarrow> int \<Rightarrow> int \<Rightarrow> dir \<Rightarrow> int \<Rightarrow> int \<Rightarrow> 'f globals \<times> int \<Rightarrow> 'f globals \<times> int" where
  "move_loop grid p px py d nx ny gc =
     (let nx' = nx + fst (DIRECTIONS d);
          ny' = ny + snd (DIRECTIONS d)
      in if nx' < 0 \<or> nx' \<ge> 8 \<or> ny' < 0 \<or> ny' \<ge> 8 then gc
         else let n_idx = nx' * 8 + ny'
              in if grid ! nat n_idx \<noteq> EMPTY then gc
                 else move_loop grid p px py d nx' ny'
                        (fold (\<lambda>ad. shot_loop grid p px py nx' ny' ad nx' ny') all_dirs gc))"
  by pat_completeness auto
termination
proof (relation "measure (\<lambda>(grid, p, px, py, d, nx, ny, gc). steps_to_edge d nx ny)")
  show "wf (measure (\<lambda>(grid, p, px, py, d, nx, ny, gc). steps_to_edge d nx ny))"
    by simp
next
  fix grid :: Board and p :: nat and px py nx ny :: int and d :: dir
    and gc :: "'f globals \<times> int" and nx' ny' n_idx :: int
  assume "nx' = nx + fst (DIRECTIONS d)" "ny' = ny + snd (DIRECTIONS d)"
    "\<not> (nx' < 0 \<or> 8 \<le> nx' \<or> ny' < 0 \<or> 8 \<le> ny')"
  then have "steps_to_edge d nx' ny' < steps_to_edge d nx ny"
    by (cases d) (auto simp: steps_to_edge_def)
  then show "((grid, p, px, py, d, nx', ny',
        fold (\<lambda>ad. shot_loop grid p px py nx' ny' ad nx' ny') all_dirs gc),
       grid, p, px, py, d, nx, ny, gc)
      \<in> measure (\<lambda>(grid, p, px, py, d, nx, ny, gc). steps_to_edge d nx ny)"
    by simp
qed

text \<open>
  \<^verbatim>\<open>Board::get_legal_moves(color, out_start_idx, out_count)\<close>: the result is the new
  globals and the two out-parameters.
\<close>

definition piece_moves :: "Board \<Rightarrow> nat \<Rightarrow> 'f globals \<times> int \<Rightarrow> 'f globals \<times> int" where
  "piece_moves grid p gc =
     (let px = int p div 8; py = int p mod 8
      in fold (\<lambda>d. move_loop grid p px py d px py) all_dirs gc)"

definition get_legal_moves :: "Board \<Rightarrow> int \<Rightarrow> 'f globals \<Rightarrow> 'f globals \<times> int \<times> int" where
  "get_legal_moves grid color g =
     (let out_start_idx = int (move_pool_ptr g);
          gc = fold (\<lambda>p gc. if grid ! p \<noteq> color then gc else piece_moves grid p gc)
                 [0..<NUM_SQUARES] (g, 0)
      in (fst gc, out_start_idx, snd gc))"

text \<open>
  \<^verbatim>\<open>Board::apply_move\<close>. The three indices are computed from the move's fields with no
  check; for indices outside the grid the C++ behaviour is undefined and the model leaves
  the grid as it is.
\<close>

definition apply_move :: "Board \<Rightarrow> Move \<Rightarrow> Board" where
  "apply_move grid m =
     (let p_idx = nat (x0 m * 8 + y0 m);
          t_idx = nat (x1 m * 8 + y1 m);
          s_idx = nat (x2 m * 8 + y2 m);
          piece = grid ! p_idx
      in grid[p_idx := EMPTY, t_idx := piece, s_idx := OBSTACLE])"

text \<open>
  The storage at program start: the statically allocated move pool is zero-initialised,
  both bump pointers are 0. The node pool is allocated in \<^verbatim>\<open>main\<close>; its cells are
  written by \<^verbatim>\<open>MCTSNode::init\<close> before they are read.
\<close>

definition blank_node :: "real MCTSNode" where
  "blank_node = \<lparr>first_child = None, next_sibling = None, parent = None,
     move = \<lparr>x0 = 0, y0 = 0, x1 = 0, y1 = 0, x2 = 0, y2 = 0\<rparr>,
     moves_start_idx = 0, moves_count = 0, wins = 0, visits = 0, player_just_moved = 0\<rparr>"

definition start_globals :: "real globals" where
  "start_globals = \<lparr>move_pool = (\<lambda>_. \<lparr>x0 = 0, y0 = 0, x1 = 0, y1 = 0, x2 = 0, y2 = 0\<rparr>),
     move_pool_ptr = 0, node_pool = (\<lambda>_. blank_node), node_pool_ptr = 0,
     xorshift_state = 0, best_child_global = None, max_visits_global = - 1\<rparr>"

section \<open>The evaluator\<close>

text \<open>
  \<^verbatim>\<open>run_bfs(grid, sources, dist_out)\<close>. The distance array holds only values that the
  function writes itself (99, 0, or a distance plus one), so its cells are natural numbers.
  The array \<^verbatim>\<open>bfs_queue\<close> with its \<^verbatim>\<open>head\<close> and \<^verbatim>\<open>tail\<close> indices is the list of the
  cells from \<^verbatim>\<open>head\<close> up to \<^verbatim>\<open>tail\<close>: reading \<^verbatim>\<open>bfs_queue[head++]\<close> takes the first
  element, writing \<^verbatim>\<open>bfs_queue[tail++]\<close> appends one.
\<close>

definition relax :: "Board \<Rightarrow> nat \<Rightarrow> nat \<Rightarrow> dir \<Rightarrow> (nat \<Rightarrow> nat) \<times> nat list \<Rightarrow> (nat \<Rightarrow> nat) \<times> nat list" where
  "relax grid cur d i dq =
     (let cx = int cur div 8; cy = int cur mod 8;
          nx = cx + fst (DIRECTIONS i); ny = cy + snd (DIRECTIONS i)
      in if nx \<ge> 0 \<and> nx < 8 \<and> ny \<ge> 0 \<and> ny < 8
         then (let n_idx = nat (nx * 8 + ny)
               in if grid ! n_idx = EMPTY \<and> fst dq n_idx > d
                  then ((fst dq)(n_idx := d), snd dq @ [n_idx])
                  else dq)
         else dq)"

definition bfs_weight :: "(nat \<Rightarrow> nat) \<times> nat list \<Rightarrow> nat" where
  "bfs_weight dq = (\<Sum>i<NUM_SQUARES. fst dq i) + length (snd dq)"

lemma relax_weight: "bfs_weight (relax grid cur d i dq) \<le> bfs_weight dq"
proof -
  have upd: "(\<Sum>i<64. (f(n := d)) i) + 1 \<le> (\<Sum>i<64. f i)" if "n < 64" "d < f n"
    for f :: "nat \<Rightarrow> nat" and n d
  proof -
    have "(\<Sum>i<64. (f(n := d)) i) = (\<Sum>i\<in>{..<64} - {n}. f i) + d"
      using that(1) by (subst sum.remove[of _ n]) (auto intro: sum.cong)
    moreover have "(\<Sum>i<64. f i) = (\<Sum>i\<in>{..<64} - {n}. f i) + f n"
      using that(1) by (subst sum.remove[of _ n]) auto
    ultimately show ?thesis using that(2) by simp
  qed
  define nx where "nx = int cur div 8 + fst (DIRECTIONS i)"
  define ny where "ny = int cur mod 8 + snd (DIRECTIONS i)"
  define n where "n = nat (nx * 8 + ny)"
  show ?thesis
  proof (cases "(nx \<ge> 0 \<and> nx < 8 \<and> ny \<ge> 0 \<and> ny < 8) \<and> grid ! n = EMPTY \<and> fst dq n > d")
    case True
    then have "n < 64" by (auto simp: n_def)
    from upd[OF this, of d "fst dq"] True
    have "(\<Sum>i<64. ((fst dq)(n := d)) i) + 1 \<le> (\<Sum>i<64. fst dq i)" by simp
    moreover have "relax grid cur d i dq = ((fst dq)(n := d), snd dq @ [n])"
      using True by (simp add: relax_def Let_def nx_def ny_def n_def)
    ultimately show ?thesis by (simp add: bfs_weight_def)
  next
    case False
    then have "relax grid cur d i dq = dq"
      by (auto simp: relax_def Let_def nx_def ny_def n_def)
    then show ?thesis by simp
  qed
qed

lemma fold_relax_weight: "bfs_weight (fold (relax grid cur d) ds dq) \<le> bfs_weight dq"
proof (induction ds arbitrary: dq)
  case Nil
  then show ?case by simp
next
  case (Cons a ds)
  have "bfs_weight (fold (relax grid cur d) ds (relax grid cur d a dq))
          \<le> bfs_weight (relax grid cur d a dq)" by (rule Cons.IH)
  also have "\<dots> \<le> bfs_weight dq" by (rule relax_weight)
  finally show ?case by simp
qed

function bfs_loop :: "Board \<Rightarrow> (nat \<Rightarrow> nat) \<times> nat list \<Rightarrow> nat \<Rightarrow> nat" where
  "bfs_loop grid dq =
     (case snd dq of
        [] \<Rightarrow> fst dq
      | cur # rest \<Rightarrow>
          bfs_loop grid (fold (relax grid cur (fst dq cur + 1)) all_dirs (fst dq, rest)))"
  by pat_completeness auto
termination
proof (relation "measure (\<lambda>(grid, dq). bfs_weight dq)")
  show "wf (measure (\<lambda>(grid, dq). bfs_weight dq))" by simp
next
  fix grid :: Board and dq :: "(nat \<Rightarrow> nat) \<times> nat list" and cur :: nat and rest :: "nat list"
  assume "snd dq = cur # rest"
  then have "bfs_weight (fst dq, rest) < bfs_weight dq"
    by (simp add: bfs_weight_def)
  with fold_relax_weight[of grid cur "fst dq cur + 1" all_dirs "(fst dq, rest)"]
  show "((grid, fold (relax grid cur (fst dq cur + 1)) all_dirs (fst dq, rest)), grid, dq)
          \<in> measure (\<lambda>(grid, dq). bfs_weight dq)"
    by simp
qed

declare bfs_loop.simps [simp del]

definition run_bfs :: "Board \<Rightarrow> nat list \<Rightarrow> nat \<Rightarrow> nat" where
  "run_bfs grid sources =
     bfs_loop grid
       (fold (\<lambda>i dq. ((fst dq)(sources ! i := 0), snd dq @ [sources ! i])) [0..<4]
          (\<lambda>i. 99, []))"

text \<open>\<^verbatim>\<open>calc_mobility(grid, pieces)\<close>: the inner \<^verbatim>\<open>while\<close> loop along one direction.\<close>

function mob_ray :: "Board \<Rightarrow> dir \<Rightarrow> int \<Rightarrow> int \<Rightarrow> int \<Rightarrow> int" where
  "mob_ray grid i nx ny mob =
     (if nx \<ge> 0 \<and> nx < 8 \<and> ny \<ge> 0 \<and> ny < 8
      then (if grid ! nat (nx * 8 + ny) \<noteq> EMPTY then mob
            else mob_ray grid i (nx + fst (DIRECTIONS i)) (ny + snd (DIRECTIONS i)) (mob + 1))
      else mob)"
  by pat_completeness auto
termination
proof (relation "measure (\<lambda>(grid, i, nx, ny, mob). steps_to_edge i nx ny)")
  show "wf (measure (\<lambda>(grid, i, nx, ny, mob). steps_to_edge i nx ny))" by simp
next
  fix grid :: Board and i :: dir and nx ny mob :: int
  assume "0 \<le> nx \<and> nx < 8 \<and> 0 \<le> ny \<and> ny < 8"
  then have "steps_to_edge i (nx + fst (DIRECTIONS i)) (ny + snd (DIRECTIONS i))
               < steps_to_edge i nx ny"
    by (cases i) (auto simp: steps_to_edge_def)
  then show "((grid, i, nx + fst (DIRECTIONS i), ny + snd (DIRECTIONS i), mob + 1),
              grid, i, nx, ny, mob)
          \<in> measure (\<lambda>(grid, i, nx, ny, mob). steps_to_edge i nx ny)"
    by simp
qed

declare mob_ray.simps [simp del]

definition calc_mobility :: "Board \<Rightarrow> nat list \<Rightarrow> int" where
  "calc_mobility grid pieces =
     fold (\<lambda>j mob.
             let p = pieces ! j; px = int p div 8; py = int p mod 8
             in fold (\<lambda>i mob. mob_ray grid i (px + fst (DIRECTIONS i)) (py + snd (DIRECTIONS i)) mob)
                  all_dirs mob)
       [0..<4] 0"

text \<open>
  The weight table, the squashing function and \<^verbatim>\<open>evaluate\<close>. A \<^verbatim>\<open>double\<close> is the real
  number it denotes. In \<open>score_cell\<close> the sums \<open>qt\<close> and \<open>kt\<close> are sums of small integers and
  \<open>qp\<close> is a sum of multiples of \<open>2^(-8)\<close>, all exact in binary64, so their additions are
  written without rounding; \<open>kp\<close> adds and subtracts the quotients \<open>1/(d+1)\<close>, and each
  division, addition and subtraction is rounded with \<open>fl64\<close>. The weighted sum and the
  squashing of \<open>evaluate\<close> are written in real arithmetic. The arrays \<^verbatim>\<open>my_pieces[4]\<close> and \<^verbatim>\<open>opp_pieces[4]\<close> are the
  lists of the cells found, in scan order; the C++ code is defined only for boards with
  four pieces of each side.
\<close>

definition WEIGHTS_TABLE :: "real list list" where
  "WEIGHTS_TABLE =
    [[0.07747, 0.05755, 0.64627, 0.70431, 0.02438], [0.05093, 0.06276, 0.69898, 0.66192, 0.02362],
     [0.06036, 0.06253, 0.60094, 0.67719, 0.01873], [0.07597, 0.06952, 0.69061, 0.67989, 0.02098],
     [0.08083, 0.08815, 0.58981, 0.54664, 0.02318], [0.09155, 0.08397, 0.56392, 0.54319, 0.02317],
     [0.10653, 0.10479, 0.54840, 0.53023, 0.02084], [0.11534, 0.11515, 0.53325, 0.52423, 0.02237],
     [0.12943, 0.12673, 0.50841, 0.52208, 0.02490], [0.12882, 0.13946, 0.49621, 0.51776, 0.03045],
     [0.13701, 0.15338, 0.47601, 0.51500, 0.03249], [0.14530, 0.15565, 0.45365, 0.50934, 0.03830],
     [0.14521, 0.16388, 0.44531, 0.50517, 0.04864], [0.13750, 0.16326, 0.43619, 0.50328, 0.05912],
     [0.13565, 0.15529, 0.42382, 0.50288, 0.07437], [0.12382, 0.10361, 0.50487, 0.55808, 0.02791],
     [0.11809, 0.14632, 0.40738, 0.41782, 0.10308], [0.10805, 0.15043, 0.40520, 0.43073, 0.10967],
     [0.09668, 0.15666, 0.40215, 0.44165, 0.10906], [0.10585, 0.16319, 0.38220, 0.45465, 0.10062],
     [0.11123, 0.15516, 0.36904, 0.46534, 0.09118], [0.12535, 0.10492, 0.35567, 0.48043, 0.08337],
     [0.28657, 0.16655, 0.38060, 0.42472, 0.10316], [0.07143, 0.16655, 0.36658, 0.39520, 0.02194],
     [0.07143, 0.16655, 0.36658, 0.39520, 0.02194], [0.07143, 0.16655, 0.36658, 0.39520, 0.02194],
     [0.07143, 0.16655, 0.36658, 0.39520, 0.02194], [0.07143, 0.14627, 0.36658, 0.39520, 0.02194]]"

definition fast_sigmoid :: "real \<Rightarrow> real" where
  "fast_sigmoid x = 0.5 * (x / (1.0 + \<bar>x\<bar>) + 1.0)"

definition POW2 :: "real list" where
  "POW2 = [0, 0.5, 0.25, 0.125, 0.0625, 0.03125, 0.015625, 0.0078125, 0.00390625]"

text \<open>
  Rounding of a real number to binary64 (round to nearest, ties to even), as every
  \<^verbatim>\<open>double\<close> operation of the code does. \<open>norm_exp n x\<close> is the exponent \<open>e\<close> with
  \<open>2^e \<le> x < 2^(e+1)\<close>, found by halving or doubling at most \<open>n\<close> times; binary64
  exponents lie between -1074 and 1023. The quantum of \<open>x\<close> is \<open>2^(e-52)\<close>, and \<open>2^(-1074)\<close>
  for subnormal \<open>x\<close>. Overflow to infinity is not modelled: the values rounded here are
  sums of at most 128 fractions of absolute value at most 1.
\<close>

fun norm_exp :: "nat \<Rightarrow> real \<Rightarrow> int" where
  "norm_exp 0 x = 0"
| "norm_exp (Suc n) x =
     (if 2 \<le> x then norm_exp n (x / 2) + 1
      else if x < 1 then norm_exp n (x * 2) - 1
      else 0)"

definition pow2 :: "int \<Rightarrow> real" where
  "pow2 e = (if 0 \<le> e then 2 ^ nat e else 1 / 2 ^ nat (- e))"

definition rne :: "real \<Rightarrow> int" where
  "rne r =
     (let f = \<lfloor>r\<rfloor>
      in if r - of_int f < 1 / 2 then f
         else if 1 / 2 < r - of_int f then f + 1
         else if even f then f else f + 1)"

definition fl64 :: "real \<Rightarrow> real" where
  "fl64 x =
     (if x = 0 then 0
      else let e = max (norm_exp 2200 \<bar>x\<bar>) (- 1022); q = pow2 (e - 52)
           in of_int (rne (x / q)) * q)"

text \<open>The array \<^verbatim>\<open>scores[5]\<close>, with the names of its comment: qt, kt, qp, kp, mob.\<close>

record scores =
  qt :: real
  kt :: real
  qp :: real
  kp :: real
  mob :: real

definition collect_pieces :: "Board \<Rightarrow> int \<Rightarrow> nat list \<times> nat list" where
  "collect_pieces grid root_player =
     fold (\<lambda>i (my_pieces, opp_pieces).
             if grid ! i = root_player then (my_pieces @ [i], opp_pieces)
             else if grid ! i = - root_player then (my_pieces, opp_pieces @ [i])
             else (my_pieces, opp_pieces))
       [0..<NUM_SQUARES] ([], [])"

definition score_cell :: "Board \<Rightarrow> (nat \<Rightarrow> nat) \<Rightarrow> (nat \<Rightarrow> nat) \<Rightarrow> nat \<Rightarrow> scores \<Rightarrow> scores" where
  "score_cell grid dist_my dist_op i sc =
     (if grid ! i \<noteq> EMPTY then sc
      else let dm = dist_my i; d_op = dist_op i
           in if dm = 99 \<and> d_op = 99 then sc
              else let sc1 =
                         (if dm < d_op
                          then sc\<lparr>qt := qt sc + 1.0,
                                  kt := (if dm < 4 then kt sc + real_of_int (4 - int dm) else kt sc)\<rparr>
                          else if d_op < dm
                          then sc\<lparr>qt := qt sc - 1.0,
                                  kt := (if d_op < 4 then kt sc - real_of_int (4 - int d_op) else kt sc)\<rparr>
                          else sc);
                       sc2 = (if dm < 9 then sc1\<lparr>qp := qp sc1 + POW2 ! dm\<rparr> else sc1);
                       sc3 = (if d_op < 9 then sc2\<lparr>qp := qp sc2 - POW2 ! d_op\<rparr> else sc2);
                       sc4 = (if dm < 6
                              then sc3\<lparr>kp := fl64 (kp sc3 + fl64 (1.0 / (real dm + 1.0)))\<rparr>
                              else sc3);
                       sc5 = (if d_op < 6
                              then sc4\<lparr>kp := fl64 (kp sc4 - fl64 (1.0 / (real d_op + 1.0)))\<rparr>
                              else sc4)
                   in sc5)"

text \<open>The five raw components: the array \<^verbatim>\<open>scores\<close> before the weighted sum is taken.\<close>

definition raw_scores :: "Board \<Rightarrow> int \<Rightarrow> scores" where
  "raw_scores grid root_player =
     (let pcs = collect_pieces grid root_player;
          my_pieces = fst pcs; opp_pieces = snd pcs;
          dist_my = run_bfs grid my_pieces;
          dist_op = run_bfs grid opp_pieces;
          sc = fold (score_cell grid dist_my dist_op) [0..<NUM_SQUARES]
                 \<lparr>qt = 0, kt = 0, qp = 0, kp = 0, mob = 0\<rparr>
      in sc\<lparr>mob := real_of_int (calc_mobility grid my_pieces - calc_mobility grid opp_pieces)\<rparr>)"

definition evaluate :: "Board \<Rightarrow> int \<Rightarrow> int \<Rightarrow> real" where
  "evaluate grid root_player turn =
     (let sc = raw_scores grid root_player;
          idx = (if turn \<ge> 28 then 27 else nat turn);
          w = WEIGHTS_TABLE ! idx;
          total = 0 + qt sc * w ! 0 + kt sc * w ! 1 + qp sc * w ! 2 + kp sc * w ! 3 + mob sc * w ! 4
      in fast_sigmoid (total * 0.2))"


section \<open>The search\<close>

text \<open>
  The arithmetic of the type \<^verbatim>\<open>float\<close>. The search is written over an arbitrary carrier
  \<open>'f\<close> and the operations that the code applies to it: \<open>f_lit r\<close> is the value of the
  literal written \<open>r\<close> with the suffix \<^verbatim>\<open>f\<close>, \<open>f_of_int\<close> and \<open>f_of_double\<close> are the
  conversions from \<^verbatim>\<open>int\<close> and from \<^verbatim>\<open>double\<close>, \<open>f_gt\<close> is the greater-than comparison,
  and the others are the arithmetic operators and \<^verbatim>\<open>std::sqrt\<close>, \<^verbatim>\<open>std::log\<close>,
  \<^verbatim>\<open>std::exp\<close> at type \<^verbatim>\<open>float\<close>. Nothing is fixed about them.
\<close>

record 'f float_ops =
  f_lit :: "real \<Rightarrow> 'f"
  f_of_int :: "int \<Rightarrow> 'f"
  f_of_double :: "real \<Rightarrow> 'f"
  f_add :: "'f \<Rightarrow> 'f \<Rightarrow> 'f"
  f_sub :: "'f \<Rightarrow> 'f \<Rightarrow> 'f"
  f_mul :: "'f \<Rightarrow> 'f \<Rightarrow> 'f"
  f_div :: "'f \<Rightarrow> 'f \<Rightarrow> 'f"
  f_sqrt :: "'f \<Rightarrow> 'f"
  f_log :: "'f \<Rightarrow> 'f"
  f_exp :: "'f \<Rightarrow> 'f"
  f_gt :: "'f \<Rightarrow> 'f \<Rightarrow> bool"

text \<open>\<^verbatim>\<open>fast_rand\<close>: one step of the xorshift generator on the 32-bit state.\<close>

definition fast_rand :: "'f globals \<Rightarrow> 32 word \<times> 'f globals" where
  "fast_rand g =
     (let x = xorshift_state g;
          x = x XOR push_bit 13 x;
          x = x XOR drop_bit 17 x;
          x = x XOR push_bit 5 x
      in (x, g\<lparr>xorshift_state := x\<rparr>))"

text \<open>\<^verbatim>\<open>MCTSNode::init\<close>, \<^verbatim>\<open>new_node\<close> and \<^verbatim>\<open>MCTSNode::add_child\<close>.\<close>

definition init :: "'f float_ops \<Rightarrow> nat option \<Rightarrow> Move \<Rightarrow> int \<Rightarrow> 'f MCTSNode" where
  "init ops p m pjm =
     \<lparr>first_child = None, next_sibling = None, parent = p, move = m,
      moves_start_idx = - 1, moves_count = 0, wins = f_lit ops 0.0, visits = 0,
      player_just_moved = int8 pjm\<rparr>"

definition new_node ::
  "'f float_ops \<Rightarrow> nat option \<Rightarrow> Move \<Rightarrow> int \<Rightarrow> 'f globals \<Rightarrow> nat option \<times> 'f globals" where
  "new_node ops p m pjm g =
     (if node_pool_ptr g \<ge> MAX_NODES then (None, g)
      else (Some (node_pool_ptr g),
            g\<lparr>node_pool := (node_pool g)(node_pool_ptr g := init ops p m pjm),
              node_pool_ptr := node_pool_ptr g + 1\<rparr>))"

definition add_child :: "nat \<Rightarrow> nat \<Rightarrow> 'f globals \<Rightarrow> 'f globals" where
  "add_child n child g =
     (let g1 = g\<lparr>node_pool := (node_pool g)
                  (child := (node_pool g child)\<lparr>next_sibling := first_child (node_pool g n)\<rparr>)\<rparr>
      in g1\<lparr>node_pool := (node_pool g1)(n := (node_pool g1 n)\<lparr>first_child := Some child\<rparr>)\<rparr>)"

text \<open>
  \<^verbatim>\<open>MCTSNode::uct_select_child(C)\<close>. The loop follows \<^verbatim>\<open>next_sibling\<close> pointers; on a
  store where they form a cycle it does not return, which is the value \<open>None\<close> of the
  outer option. The result is the pointer \<^verbatim>\<open>best\<close>, which may be null.
\<close>

definition uct_score :: "'f float_ops \<Rightarrow> 'f \<Rightarrow> 'f \<Rightarrow> 'f MCTSNode \<Rightarrow> 'f" where
  "uct_score ops C log_v c =
     f_add ops
       (f_div ops (wins c) (f_add ops (f_of_int ops (visits c)) (f_lit ops 0.000001)))
       (f_mul ops C
          (f_sqrt ops
             (f_div ops log_v (f_add ops (f_of_int ops (visits c)) (f_lit ops 0.000001)))))"

partial_function (option) uct_loop ::
  "'f float_ops \<Rightarrow> 'f globals \<Rightarrow> 'f \<Rightarrow> 'f \<Rightarrow> nat option \<Rightarrow> nat option \<Rightarrow> 'f
     \<Rightarrow> nat option option" where
  "uct_loop ops g C log_v c best best_score =
     (case c of
        None \<Rightarrow> Some best
      | Some ci \<Rightarrow>
          if f_gt ops (uct_score ops C log_v (node_pool g ci)) best_score
          then uct_loop ops g C log_v (next_sibling (node_pool g ci)) (Some ci)
                 (uct_score ops C log_v (node_pool g ci))
          else uct_loop ops g C log_v (next_sibling (node_pool g ci)) best best_score)"

definition uct_log_v :: "'f float_ops \<Rightarrow> int \<Rightarrow> 'f" where
  "uct_log_v ops v = f_log ops (f_add ops (f_of_int ops v) (f_lit ops 1.0))"

definition uct_select_child :: "'f float_ops \<Rightarrow> 'f globals \<Rightarrow> nat \<Rightarrow> 'f \<Rightarrow> nat option option" where
  "uct_select_child ops g n C =
     uct_loop ops g C (uct_log_v ops (visits (node_pool g n)))
       (first_child (node_pool g n)) None (f_lit ops (- 1000000000))"

text \<open>
  The selection loop of \<^verbatim>\<open>search\<close>. Its state is the current node, the working copy of
  the board and the player to move. \<open>None\<close>: the loop does not return, or it dereferences
  the null pointer that \<^verbatim>\<open>uct_select_child\<close> returned.
\<close>

partial_function (option) select_loop ::
  "'f float_ops \<Rightarrow> 'f globals \<Rightarrow> 'f \<Rightarrow> nat \<Rightarrow> Board \<Rightarrow> int \<Rightarrow> (nat \<times> Board \<times> int) option" where
  "select_loop ops g C node state current_player =
     (if moves_count (node_pool g node) = 0 \<and> first_child (node_pool g node) \<noteq> None
      then (case uct_select_child ops g node C of
              None \<Rightarrow> None
            | Some None \<Rightarrow> None
            | Some (Some n) \<Rightarrow>
                select_loop ops g C n (apply_move state (move (node_pool g n)))
                  (- current_player))
      else Some (node, state, current_player))"

text \<open>\<^verbatim>\<open>std::swap(move_pool[i], move_pool[j])\<close>.\<close>

definition swap_moves :: "nat \<Rightarrow> nat \<Rightarrow> 'f globals \<Rightarrow> 'f globals" where
  "swap_moves i j g =
     g\<lparr>move_pool := (move_pool g)(i := move_pool g j, j := move_pool g i)\<rparr>"

text \<open>
  Taking an untried move: a random index into the node's list, the swap with the last
  entry, and the decrement of \<^verbatim>\<open>moves_count\<close>. The result is the move and the new
  globals.
\<close>

definition pick_untried :: "'f globals \<Rightarrow> nat \<Rightarrow> Move \<times> 'f globals" where
  "pick_untried g node =
     (let r = fast_rand g; g1 = snd r;
          offset = int (unat (fst r) mod nat (moves_count (node_pool g1 node)));
          idx = moves_start_idx (node_pool g1 node) + offset;
          m = move_pool g1 (nat idx);
          last_idx = moves_start_idx (node_pool g1 node) + moves_count (node_pool g1 node) - 1;
          g2 = swap_moves (nat idx) (nat last_idx) g1;
          g3 = g2\<lparr>node_pool := (node_pool g2)
                     (node := (node_pool g2 node)
                        \<lparr>moves_count := moves_count (node_pool g2 node) - 1\<rparr>)\<rparr>
      in (m, g3))"

text \<open>
  The call \<^verbatim>\<open>state.get_legal_moves(player, n->moves_start_idx, n->moves_count)\<close>: the
  two out-parameters are fields of node \<open>n\<close>.
\<close>

definition generate_for :: "Board \<Rightarrow> int \<Rightarrow> nat \<Rightarrow> 'f globals \<Rightarrow> 'f globals" where
  "generate_for state player n g =
     (let gl = get_legal_moves state player g; g5 = fst gl
      in g5\<lparr>node_pool := (node_pool g5)
              (n := (node_pool g5 n)
                 \<lparr>moves_start_idx := fst (snd gl), moves_count := snd (snd gl)\<rparr>)\<rparr>)"

text \<open>
  The expansion step. The result is the new globals and the locals \<^verbatim>\<open>node\<close>,
  \<^verbatim>\<open>state\<close>, \<^verbatim>\<open>current_player\<close>, \<^verbatim>\<open>win_prob\<close> and \<^verbatim>\<open>terminal\<close> as they stand
  before the evaluation step.
\<close>

definition expand ::
  "'f float_ops \<Rightarrow> int \<Rightarrow> 'f globals \<Rightarrow> nat \<Rightarrow> Board \<Rightarrow> int
     \<Rightarrow> 'f globals \<times> nat \<times> Board \<times> int \<times> 'f \<times> bool" where
  "expand ops root_player g node state current_player =
     (if moves_count (node_pool g node) > 0
      then
        (let pu = pick_untried g node; m = fst pu;
             state1 = apply_move state m;
             current_player1 = - current_player;
             nn = new_node ops (Some node) m (- current_player1) (snd pu)
         in case fst nn of
              Some new_n \<Rightarrow>
                (let g6 = generate_for state1 current_player1 new_n (snd nn);
                     term = (moves_count (node_pool g6 new_n) = 0);
                     win_prob = (if term then (if current_player1 = root_player
                                               then f_lit ops 0.0 else f_lit ops 1.0)
                                 else f_lit ops 0.0)
                 in (add_child node new_n g6, new_n, state1, current_player1, win_prob, term))
            | None \<Rightarrow> (snd nn, node, state1, current_player1, f_lit ops 0.0, False))
      else
        (if first_child (node_pool g node) = None
         then (g, node, state, current_player,
               (if player_just_moved (node_pool g node) = root_player
                then f_lit ops 1.0 else f_lit ops 0.0), True)
         else (g, node, state, current_player, f_lit ops 0.0, False)))"

text \<open>
  The backpropagation loop, from \<^verbatim>\<open>node\<close> up the \<^verbatim>\<open>parent\<close> pointers. \<open>root_node\<close> is the
  pointer held by the local \<^verbatim>\<open>root\<close>.
\<close>

definition backprop_step ::
  "'f float_ops \<Rightarrow> int \<Rightarrow> nat option \<Rightarrow> 'f \<Rightarrow> nat \<Rightarrow> 'f globals \<Rightarrow> 'f globals" where
  "backprop_step ops root_player root_node win_prob n g =
     (let g1 = g\<lparr>node_pool := (node_pool g)
                  (n := (node_pool g n)\<lparr>visits := visits (node_pool g n) + 1\<rparr>)\<rparr>;
          g2 = (if parent (node_pool g1 n) = root_node
                   \<and> visits (node_pool g1 n) > max_visits_global g1
                then g1\<lparr>max_visits_global := visits (node_pool g1 n),
                        best_child_global := Some n\<rparr>
                else g1)
      in if player_just_moved (node_pool g2 n) = root_player
         then g2\<lparr>node_pool := (node_pool g2)
                  (n := (node_pool g2 n)
                     \<lparr>wins := f_add ops (wins (node_pool g2 n)) win_prob\<rparr>)\<rparr>
         else g2\<lparr>node_pool := (node_pool g2)
                  (n := (node_pool g2 n)
                     \<lparr>wins := f_add ops (wins (node_pool g2 n))
                                (f_sub ops (f_lit ops 1.0) win_prob)\<rparr>)\<rparr>)"

partial_function (option) backprop ::
  "'f float_ops \<Rightarrow> int \<Rightarrow> nat option \<Rightarrow> 'f \<Rightarrow> nat option \<Rightarrow> 'f globals
     \<Rightarrow> 'f globals option" where
  "backprop ops root_player root_node win_prob node g =
     (case node of
        None \<Rightarrow> Some g
      | Some n \<Rightarrow>
          backprop ops root_player root_node win_prob (parent (node_pool g n))
            (backprop_step ops root_player root_node win_prob n g))"

text \<open>
  One pass of the body of \<^verbatim>\<open>while(true)\<close> after the periodic check: selection,
  expansion, evaluation (only if not terminal) and backpropagation. The evaluator is a
  parameter \<open>ev\<close>, instantiated with \<open>evaluate\<close> by \<open>search\<close>.
\<close>

definition iteration ::
  "'f float_ops \<Rightarrow> (Board \<Rightarrow> int \<Rightarrow> int \<Rightarrow> real) \<Rightarrow> Board \<Rightarrow> int \<Rightarrow> int \<Rightarrow> nat \<Rightarrow> 'f
     \<Rightarrow> 'f globals \<Rightarrow> 'f globals option" where
  "iteration ops ev root_state root_player turn root_node C g =
     (case select_loop ops g C root_node root_state root_player of
        None \<Rightarrow> None
      | Some sel \<Rightarrow>
          (let ex = expand ops root_player g (fst sel) (fst (snd sel)) (snd (snd sel));
               g1 = fst ex; node = fst (snd ex); state = fst (snd (snd ex));
               win_prob0 = fst (snd (snd (snd (snd ex))));
               terminal = snd (snd (snd (snd (snd ex))));
               win_prob = (if \<not> terminal then f_of_double ops (ev state root_player turn)
                           else win_prob0)
           in backprop ops root_player (Some root_node) win_prob (Some node) g1))"

text \<open>
  The loop of \<^verbatim>\<open>search\<close>. \<open>clock i\<close> is the outcome of the test
  \<^verbatim>\<open>steady_clock::now() >= deadline\<close> when it is made with \<^verbatim>\<open>iterations\<close> equal to \<open>i\<close>.
  The counter \<^verbatim>\<open>iterations\<close> is an unbounded integer here.
\<close>

partial_function (option) search_loop ::
  "'f float_ops \<Rightarrow> (int \<Rightarrow> bool) \<Rightarrow> (Board \<Rightarrow> int \<Rightarrow> int \<Rightarrow> real) \<Rightarrow> Board \<Rightarrow> int \<Rightarrow> int
     \<Rightarrow> nat \<Rightarrow> 'f \<Rightarrow> 'f globals \<Rightarrow> int \<Rightarrow> ('f globals \<times> int) option" where
  "search_loop ops clock ev root_state root_player turn root_node C g iterations =
     (if iterations AND 0xFF = 0 \<and>
         (clock iterations \<or> node_pool_ptr g > MAX_NODES - 500
            \<or> move_pool_ptr g > MAX_MOVES_POOL - 5000)
      then Some (g, iterations)
      else (case iteration ops ev root_state root_player turn root_node C g of
              None \<Rightarrow> None
            | Some g' \<Rightarrow>
                search_loop ops clock ev root_state root_player turn root_node C g'
                  (iterations + 1)))"

text \<open>
  \<^verbatim>\<open>search(root_state, root_player, turn, start, timeout)\<close>. The result is the move
  returned, the globals and the value of \<^verbatim>\<open>iterations\<close> when the loop was left.
\<close>

definition search_init ::
  "'f float_ops \<Rightarrow> Board \<Rightarrow> int \<Rightarrow> 'f globals \<Rightarrow> nat option \<times> 'f globals" where
  "search_init ops root_state root_player g0 =
     (let g = g0\<lparr>node_pool_ptr := 0, move_pool_ptr := 0\<rparr>;
          nn = new_node ops None \<lparr>x0 = 0, y0 = 0, x1 = 0, y1 = 0, x2 = 0, y2 = 0\<rparr>
                 (- root_player) g
      in case fst nn of
           None \<Rightarrow> (None, snd nn)
         | Some root_node \<Rightarrow>
             (let g3 = generate_for root_state root_player root_node (snd nn)
              in (Some root_node, g3\<lparr>best_child_global := None, max_visits_global := - 1\<rparr>)))"

definition UCT_C :: "'f float_ops \<Rightarrow> int \<Rightarrow> 'f" where
  "UCT_C ops turn =
     f_mul ops (f_lit ops 0.177)
       (f_exp ops (f_mul ops (f_lit ops (- 0.008))
                     (f_sub ops (f_of_int ops turn) (f_lit ops 1.41))))"

definition search_result :: "nat \<Rightarrow> 'f globals \<Rightarrow> Move" where
  "search_result root_node g =
     (case best_child_global g of
        Some b \<Rightarrow> move (node_pool g b)
      | None \<Rightarrow>
          (case first_child (node_pool g root_node) of
             Some c \<Rightarrow> move (node_pool g c)
           | None \<Rightarrow> mk_Move (- 1) (- 1) (- 1) (- 1) (- 1) (- 1)))"

definition search_with ::
  "'f float_ops \<Rightarrow> (Board \<Rightarrow> int \<Rightarrow> int \<Rightarrow> real) \<Rightarrow> (int \<Rightarrow> bool) \<Rightarrow> Board \<Rightarrow> int \<Rightarrow> int
     \<Rightarrow> 'f globals \<Rightarrow> (Move \<times> 'f globals \<times> int) option" where
  "search_with ops ev clock root_state root_player turn g0 =
     (case search_init ops root_state root_player g0 of
        (None, g) \<Rightarrow> None
      | (Some root_node, g) \<Rightarrow>
          (case search_loop ops clock ev root_state root_player turn root_node
                  (UCT_C ops turn) g 0 of
             None \<Rightarrow> None
           | Some (g', iterations) \<Rightarrow> Some (search_result root_node g', g', iterations)))"

definition search ::
  "'f float_ops \<Rightarrow> (int \<Rightarrow> bool) \<Rightarrow> Board \<Rightarrow> int \<Rightarrow> int \<Rightarrow> 'f globals
     \<Rightarrow> (Move \<times> 'f globals \<times> int) option" where
  "search ops = search_with ops evaluate"
subsection \<open>The generated moves as a list\<close>

text \<open>
  The same loops, collecting the moves in a list instead of writing them to the pool.
  \<open>push_moves\<close> writes a list to the pool the way the generator does, dropping what does
  not fit.
\<close>

function shot_list ::
  "Board \<Rightarrow> nat \<Rightarrow> int \<Rightarrow> int \<Rightarrow> int \<Rightarrow> int \<Rightarrow> dir \<Rightarrow> int \<Rightarrow> int \<Rightarrow> Move list" where
  "shot_list grid p px py nx ny ad ax ay =
     (let ax' = ax + fst (DIRECTIONS ad);
          ay' = ay + snd (DIRECTIONS ad)
      in if ax' < 0 \<or> ax' \<ge> 8 \<or> ay' < 0 \<or> ay' \<ge> 8 then []
         else if grid ! nat (ax' * 8 + ay') \<noteq> EMPTY \<and> ax' * 8 + ay' \<noteq> int p then []
         else mk_Move px py nx ny ax' ay' # shot_list grid p px py nx ny ad ax' ay')"
  by pat_completeness auto
termination
proof (relation "measure (\<lambda>(grid, p, px, py, nx, ny, ad, ax, ay). steps_to_edge ad ax ay)")
  show "wf (measure (\<lambda>(grid, p, px, py, nx, ny, ad, ax, ay). steps_to_edge ad ax ay))"
    by simp
next
  fix grid :: Board and p :: nat and px py nx ny ax ay :: int and ad :: dir
    and ax' ay' :: int
  assume "ax' = ax + fst (DIRECTIONS ad)" "ay' = ay + snd (DIRECTIONS ad)"
    "\<not> (ax' < 0 \<or> 8 \<le> ax' \<or> ay' < 0 \<or> 8 \<le> ay')"
  then have "steps_to_edge ad ax' ay' < steps_to_edge ad ax ay"
    by (cases ad) (auto simp: steps_to_edge_def)
  then show "((grid, p, px, py, nx, ny, ad, ax', ay'), grid, p, px, py, nx, ny, ad, ax, ay)
      \<in> measure (\<lambda>(grid, p, px, py, nx, ny, ad, ax, ay). steps_to_edge ad ax ay)"
    by simp
qed

function move_list :: "Board \<Rightarrow> nat \<Rightarrow> int \<Rightarrow> int \<Rightarrow> dir \<Rightarrow> int \<Rightarrow> int \<Rightarrow> Move list" where
  "move_list grid p px py d nx ny =
     (let nx' = nx + fst (DIRECTIONS d);
          ny' = ny + snd (DIRECTIONS d)
      in if nx' < 0 \<or> nx' \<ge> 8 \<or> ny' < 0 \<or> ny' \<ge> 8 then []
         else if grid ! nat (nx' * 8 + ny') \<noteq> EMPTY then []
         else concat (map (\<lambda>ad. shot_list grid p px py nx' ny' ad nx' ny') all_dirs)
              @ move_list grid p px py d nx' ny')"
  by pat_completeness auto
termination
proof (relation "measure (\<lambda>(grid, p, px, py, d, nx, ny). steps_to_edge d nx ny)")
  show "wf (measure (\<lambda>(grid, p, px, py, d, nx, ny). steps_to_edge d nx ny))"
    by simp
next
  fix grid :: Board and p :: nat and px py nx ny :: int and d :: dir and nx' ny' :: int
  assume "nx' = nx + fst (DIRECTIONS d)" "ny' = ny + snd (DIRECTIONS d)"
    "\<not> (nx' < 0 \<or> 8 \<le> nx' \<or> ny' < 0 \<or> 8 \<le> ny')"
  then have "steps_to_edge d nx' ny' < steps_to_edge d nx ny"
    by (cases d) (auto simp: steps_to_edge_def)
  then show "((grid, p, px, py, d, nx', ny'), grid, p, px, py, d, nx, ny)
      \<in> measure (\<lambda>(grid, p, px, py, d, nx, ny). steps_to_edge d nx ny)"
    by simp
qed

definition piece_list :: "Board \<Rightarrow> nat \<Rightarrow> Move list" where
  "piece_list grid p =
     concat (map (\<lambda>d. move_list grid p (int p div 8) (int p mod 8) d (int p div 8) (int p mod 8))
               all_dirs)"

definition legal_moves :: "Board \<Rightarrow> int \<Rightarrow> Move list" where
  "legal_moves grid color =
     concat (map (\<lambda>p. if grid ! p \<noteq> color then [] else piece_list grid p) [0..<NUM_SQUARES])"

declare shot_loop.simps [simp del] move_loop.simps [simp del]
  shot_list.simps [simp del] move_list.simps [simp del]

definition push1 :: "Move \<Rightarrow> 'f globals \<times> int \<Rightarrow> 'f globals \<times> int" where
  "push1 m gc =
     (if move_pool_ptr (fst gc) < MAX_MOVES_POOL
      then ((fst gc)\<lparr>move_pool := (move_pool (fst gc)) (move_pool_ptr (fst gc) := m),
                     move_pool_ptr := move_pool_ptr (fst gc) + 1\<rparr>, snd gc + 1)
      else gc)"

definition push_moves :: "Move list \<Rightarrow> 'f globals \<times> int \<Rightarrow> 'f globals \<times> int" where
  "push_moves ms gc = fold push1 ms gc"

subsection \<open>Mobility, stated without the loops\<close>

text \<open>
  \<open>free_step grid d x y j\<close>: the cell \<open>j\<close> steps from \<open>(x, y)\<close> in direction \<open>d\<close> is on the
  board and Empty. \<open>slide_count\<close> counts the cells that a slide from \<open>(x, y)\<close> along \<open>d\<close>
  reaches: those at a distance \<open>k\<close> with every cell up to \<open>k\<close> free. \<open>slide_mobility\<close> sums
  it over the four pieces and the eight directions.
\<close>

definition free_step :: "Board \<Rightarrow> dir \<Rightarrow> int \<Rightarrow> int \<Rightarrow> nat \<Rightarrow> bool" where
  "free_step grid d x y j \<longleftrightarrow>
     (let cx = x + int j * fst (DIRECTIONS d); cy = y + int j * snd (DIRECTIONS d)
      in 0 \<le> cx \<and> cx < 8 \<and> 0 \<le> cy \<and> cy < 8 \<and> grid ! nat (cx * 8 + cy) = EMPTY)"

definition slide_count :: "Board \<Rightarrow> dir \<Rightarrow> int \<Rightarrow> int \<Rightarrow> nat" where
  "slide_count grid d x y =
     length (filter (\<lambda>k. list_all (free_step grid d x y) [1..<Suc k]) [1..<8])"

definition piece_mobility :: "Board \<Rightarrow> nat \<Rightarrow> int" where
  "piece_mobility grid p =
     (\<Sum>d\<leftarrow>all_dirs. int (slide_count grid d (int p div 8) (int p mod 8)))"

definition slide_mobility :: "Board \<Rightarrow> nat list \<Rightarrow> int" where
  "slide_mobility grid pieces = (\<Sum>j\<leftarrow>[0..<4]. piece_mobility grid (pieces ! j))"

text \<open>
  The mobility of the specification's wording: for each piece and each direction, one if
  the adjacent cell in that direction is on the board and Empty, so at most 8 per piece.
\<close>

definition single_step_mobility :: "Board \<Rightarrow> nat list \<Rightarrow> int" where
  "single_step_mobility grid pieces =
     (\<Sum>j\<leftarrow>[0..<4]. \<Sum>d\<leftarrow>all_dirs.
        (if free_step grid d (int (pieces ! j) div 8) (int (pieces ! j) mod 8) 1 then 1 else 0))"

text \<open>The number of board cells on the ray from \<open>(x, y)\<close> in direction \<open>d\<close>.\<close>

definition edge_count :: "dir \<Rightarrow> int \<Rightarrow> int \<Rightarrow> nat" where
  "edge_count d x y =
     length (filter (\<lambda>k. 0 \<le> x + int k * fst (DIRECTIONS d) \<and> x + int k * fst (DIRECTIONS d) < 8 \<and>
                          0 \<le> y + int k * snd (DIRECTIONS d) \<and> y + int k * snd (DIRECTIONS d) < 8)
               [1..<8])"

text \<open>The near-position accumulation of \<open>score_cell\<close> on its own.\<close>

definition kp_step :: "Board \<Rightarrow> (nat \<Rightarrow> nat) \<Rightarrow> (nat \<Rightarrow> nat) \<Rightarrow> nat \<Rightarrow> real \<Rightarrow> real" where
  "kp_step grid dist_my dist_op i k =
     (if grid ! i \<noteq> EMPTY \<or> (dist_my i = 99 \<and> dist_op i = 99) then k
      else let k1 = (if dist_my i < 6 then fl64 (k + fl64 (1 / (real (dist_my i) + 1))) else k)
           in if dist_op i < 6 then fl64 (k1 - fl64 (1 / (real (dist_op i) + 1))) else k1)"

text \<open>The position after Black's move (0,2) to (1,2) with the obstacle on (2,2).\<close>

definition board_after_first :: Board where
  "board_after_first = apply_move new_Board \<lparr>x0 = 0, y0 = 2, x1 = 1, y1 = 2, x2 = 2, y2 = 2\<rparr>"

subsection \<open>Well-formed search state\<close>

text \<open>
  \<open>wf_tree g\<close>: the allocated part of the node pool is a tree stored the way \<^verbatim>\<open>search\<close>
  builds it. The root is cell 0; a node's parent has a smaller index; \<^verbatim>\<open>first_child\<close>
  and \<^verbatim>\<open>next_sibling\<close> stay inside the allocated part and link nodes with the same
  parent; a node with a child has a first child; counters are not negative; the untried
  moves of a node lie inside the used part of the move pool.
\<close>

definition wf_tree :: "'f globals \<Rightarrow> bool" where
  "wf_tree g \<longleftrightarrow>
     1 \<le> node_pool_ptr g \<and> node_pool_ptr g \<le> MAX_NODES \<and>
     move_pool_ptr g \<le> MAX_MOVES_POOL \<and>
     parent (node_pool g 0) = None \<and>
     (\<forall>i. 0 < i \<and> i < node_pool_ptr g \<longrightarrow> (\<exists>j<i. parent (node_pool g i) = Some j)) \<and>
     (\<forall>i<node_pool_ptr g. \<forall>c. first_child (node_pool g i) = Some c \<longrightarrow>
        c < node_pool_ptr g \<and> parent (node_pool g c) = Some i) \<and>
     (\<forall>i<node_pool_ptr g. \<forall>s. next_sibling (node_pool g i) = Some s \<longrightarrow>
        s < i \<and> parent (node_pool g s) = parent (node_pool g i)) \<and>
     (\<forall>c<node_pool_ptr g. \<forall>i. parent (node_pool g c) = Some i \<longrightarrow>
        first_child (node_pool g i) \<noteq> None) \<and>
     (\<forall>i<node_pool_ptr g. 0 \<le> visits (node_pool g i)) \<and>
     (\<forall>i<node_pool_ptr g. 0 \<le> moves_count (node_pool g i) \<and>
        (0 < moves_count (node_pool g i) \<longrightarrow>
           0 \<le> moves_start_idx (node_pool g i) \<and>
           moves_start_idx (node_pool g i) + moves_count (node_pool g i)
             \<le> int (move_pool_ptr g)))"

text \<open>
  \<open>same_shape g g'\<close>: the two states differ at most in the \<^verbatim>\<open>visits\<close> and \<^verbatim>\<open>wins\<close>
  fields of nodes and in the two globals that track the most visited root child.
\<close>

definition same_shape :: "'f globals \<Rightarrow> 'f globals \<Rightarrow> bool" where
  "same_shape g g' \<longleftrightarrow>
     node_pool_ptr g' = node_pool_ptr g \<and> move_pool_ptr g' = move_pool_ptr g \<and>
     move_pool g' = move_pool g \<and> xorshift_state g' = xorshift_state g \<and>
     (\<forall>i. node_pool g' i =
            (node_pool g i)\<lparr>visits := visits (node_pool g' i), wins := wins (node_pool g' i)\<rparr>)"

text \<open>
  \<open>wf_best X g\<close>: \<^verbatim>\<open>max_visits_global\<close> bounds the visit counts of the children of the
  root, \<^verbatim>\<open>best_child_global\<close> is a child of the root that attains it, and every child of
  the root has been visited. The nodes in \<open>X\<close> are exempt: a node just allocated has no
  visit until backpropagation has passed it.
\<close>

definition wf_best :: "nat set \<Rightarrow> 'f globals \<Rightarrow> bool" where
  "wf_best X g \<longleftrightarrow>
     - 1 \<le> max_visits_global g \<and>
     (\<forall>c<node_pool_ptr g. parent (node_pool g c) = Some 0 \<longrightarrow> c \<notin> X \<longrightarrow>
        1 \<le> visits (node_pool g c) \<and> visits (node_pool g c) \<le> max_visits_global g) \<and>
     (case best_child_global g of
        None \<Rightarrow> max_visits_global g = - 1
      | Some b \<Rightarrow> b < node_pool_ptr g \<and> parent (node_pool g b) = Some 0 \<and>
                 visits (node_pool g b) = max_visits_global g)"

text \<open>
  \<open>wf_moves L g\<close>: every untried move of the root and every move stored in a child of the
  root is an element of the list \<open>L\<close>, and the untried moves of the other nodes lie behind
  those of the root in the move pool.
\<close>

definition wf_moves :: "Move list \<Rightarrow> 'f globals \<Rightarrow> bool" where
  "wf_moves L g \<longleftrightarrow>
     moves_start_idx (node_pool g 0) = 0 \<and>
     (\<forall>k. int k < moves_count (node_pool g 0) \<longrightarrow> move_pool g k \<in> set L) \<and>
     (\<forall>c<node_pool_ptr g. parent (node_pool g c) = Some 0 \<longrightarrow> move (node_pool g c) \<in> set L) \<and>
     (\<forall>i. 0 < i \<and> i < node_pool_ptr g \<longrightarrow> 0 < moves_count (node_pool g i) \<longrightarrow>
        moves_count (node_pool g 0) \<le> moves_start_idx (node_pool g i))"

text \<open>
  \<open>wf_players rp g\<close>: the root records the opponent of the searching side \<open>rp\<close> as the
  player who just moved, and the field alternates along every parent link.
\<close>

definition wf_players :: "int \<Rightarrow> 'f globals \<Rightarrow> bool" where
  "wf_players rp g \<longleftrightarrow>
     player_just_moved (node_pool g 0) = - rp \<and>
     (\<forall>i<node_pool_ptr g. player_just_moved (node_pool g i) = rp
                           \<or> player_just_moved (node_pool g i) = - rp) \<and>
     (\<forall>c<node_pool_ptr g. \<forall>i. parent (node_pool g c) = Some i \<longrightarrow>
        player_just_moved (node_pool g c) = - player_just_moved (node_pool g i))"

text \<open>The invariant of the search loop, at the head of the loop.\<close>

definition search_inv :: "Move list \<Rightarrow> int \<Rightarrow> 'f globals \<Rightarrow> bool" where
  "search_inv L rp g \<longleftrightarrow> wf_tree g \<and> wf_best {} g \<and> wf_moves L g \<and> wf_players rp g"

text \<open>
  Names for values that the expansion step computes: the index picked by \<^verbatim>\<open>fast_rand\<close>,
  the index of the last untried move, and the number of moves that the generator writes
  (the moves of the position, or as many as still fit into the pool).
\<close>

definition pick_idx :: "'f globals \<Rightarrow> nat \<Rightarrow> nat" where
  "pick_idx g node =
     nat (moves_start_idx (node_pool g node)
          + int (unat (fst (fast_rand g)) mod nat (moves_count (node_pool g node))))"

definition last_idx :: "'f globals \<Rightarrow> nat \<Rightarrow> nat" where
  "last_idx g node =
     nat (moves_start_idx (node_pool g node) + moves_count (node_pool g node) - 1)"

definition gen_count :: "Board \<Rightarrow> int \<Rightarrow> 'f globals \<Rightarrow> int" where
  "gen_count state player g =
     int (min (length (legal_moves state player)) (MAX_MOVES_POOL - move_pool_ptr g))"

text \<open>
  \<open>uct_ok ops C g\<close>: at every node that has a child, the score of the first child exceeds
  the initial \<^verbatim>\<open>best_score\<close>, so that \<^verbatim>\<open>uct_select_child\<close> does not return null.
\<close>

definition uct_ok :: "'f float_ops \<Rightarrow> 'f \<Rightarrow> 'f globals \<Rightarrow> bool" where
  "uct_ok ops C g \<longleftrightarrow>
     (\<forall>n<node_pool_ptr g. \<forall>c. first_child (node_pool g n) = Some c \<longrightarrow>
        f_gt ops (uct_score ops C (uct_log_v ops (visits (node_pool g n))) (node_pool g c))
          (f_lit ops (- 1000000000)))"

text \<open>
  \<open>wins_ok Q g\<close>: the \<^verbatim>\<open>wins\<close> field of every allocated node satisfies \<open>Q\<close>.
\<close>

definition wins_ok :: "('f \<Rightarrow> bool) \<Rightarrow> 'f globals \<Rightarrow> bool" where
  "wins_ok Q g \<longleftrightarrow> (\<forall>i<node_pool_ptr g. Q (wins (node_pool g i)))"

text \<open>
  What the proof that the search returns uses of the arithmetic: a property \<open>Q\<close> of
  \<^verbatim>\<open>float\<close> values that holds of \<^verbatim>\<open>0.0f\<close>, that the two additions of the
  backpropagation step preserve for every value \<^verbatim>\<open>win_prob\<close> can take, and that makes
  the score of a child exceed the initial \<^verbatim>\<open>best_score\<close>.
\<close>

definition wins_closed :: "'f float_ops \<Rightarrow> ('f \<Rightarrow> bool) \<Rightarrow> 'f \<Rightarrow> bool" where
  "wins_closed ops Q w \<longleftrightarrow>
     (\<forall>a. Q a \<longrightarrow> Q (f_add ops a w) \<and> Q (f_add ops a (f_sub ops (f_lit ops 1) w)))"

definition float_sane ::
  "'f float_ops \<Rightarrow> (Board \<Rightarrow> int \<Rightarrow> int \<Rightarrow> real) \<Rightarrow> ('f \<Rightarrow> bool) \<Rightarrow> 'f \<Rightarrow> bool" where
  "float_sane ops ev Q C \<longleftrightarrow>
     Q (f_lit ops 0) \<and> wins_closed ops Q (f_lit ops 0) \<and> wins_closed ops Q (f_lit ops 1) \<and>
     (\<forall>s p t. wins_closed ops Q (f_of_double ops (ev s p t))) \<and>
     (\<forall>c pv. Q (wins c) \<and> 0 \<le> visits c \<and> 0 \<le> pv \<longrightarrow>
        f_gt ops (uct_score ops C (uct_log_v ops pv) c) (f_lit ops (- 1000000000)))"

text \<open>One instance of the arithmetic: exact arithmetic on the real numbers.\<close>

definition real_ops :: "real float_ops" where
  "real_ops = \<lparr>f_lit = (\<lambda>r. r), f_of_int = real_of_int, f_of_double = (\<lambda>r. r),
     f_add = (+), f_sub = (-), f_mul = (*), f_div = (/), f_sqrt = sqrt, f_log = ln, f_exp = exp,
     f_gt = (\<lambda>a b. b < a)\<rparr>"

text \<open>The children of the root among the allocated nodes.\<close>

definition root_children :: "'f globals \<Rightarrow> nat set" where
  "root_children g = {c. c < node_pool_ptr g \<and> parent (node_pool g c) = Some 0}"

text \<open>
  The search loop unrolled. \<open>loop_exit\<close> is the test at the head of the loop;
  \<open>loop_state \<dots> n g i\<close> is the state at the head of the loop after \<open>n\<close> further passes
  through the body, started with globals \<open>g\<close> and \<^verbatim>\<open>iterations\<close> equal to \<open>i\<close>. It is
  \<open>None\<close> if the loop was left before, or a pass did not return.
\<close>

definition loop_exit :: "(int \<Rightarrow> bool) \<Rightarrow> 'f globals \<Rightarrow> int \<Rightarrow> bool" where
  "loop_exit clock g iterations \<longleftrightarrow>
     iterations AND 0xFF = 0 \<and>
     (clock iterations \<or> node_pool_ptr g > MAX_NODES - 500
        \<or> move_pool_ptr g > MAX_MOVES_POOL - 5000)"

fun loop_state ::
  "'f float_ops \<Rightarrow> (int \<Rightarrow> bool) \<Rightarrow> (Board \<Rightarrow> int \<Rightarrow> int \<Rightarrow> real) \<Rightarrow> Board \<Rightarrow> int \<Rightarrow> int
     \<Rightarrow> nat \<Rightarrow> 'f \<Rightarrow> nat \<Rightarrow> 'f globals \<Rightarrow> int \<Rightarrow> ('f globals \<times> int) option" where
  "loop_state ops clock ev root_state root_player turn root_node C 0 g iterations =
     Some (g, iterations)"
| "loop_state ops clock ev root_state root_player turn root_node C (Suc n) g iterations =
     (if loop_exit clock g iterations then None
      else (case iteration ops ev root_state root_player turn root_node C g of
              None \<Rightarrow> None
            | Some g' \<Rightarrow>
                loop_state ops clock ev root_state root_player turn root_node C n g'
                  (iterations + 1)))"
section \<open>Properties of move generation and move application\<close>

lemma push_moves_Nil [simp]: "push_moves [] gc = gc"
  by (simp add: push_moves_def)

lemma push_moves_Cons [simp]: "push_moves (m # ms) gc = push_moves ms (push1 m gc)"
  by (simp add: push_moves_def)

lemma push_moves_append [simp]: "push_moves (xs @ ys) gc = push_moves ys (push_moves xs gc)"
  by (simp add: push_moves_def)

lemma push_moves_full: "\<not> move_pool_ptr (fst gc) < MAX_MOVES_POOL \<Longrightarrow> push_moves ms gc = gc"
  by (induction ms) (simp_all add: push1_def)

lemma shot_loop_eq:
  "shot_loop grid p px py nx ny ad ax ay gc = push_moves (shot_list grid p px py nx ny ad ax ay) gc"
proof (induction grid p px py nx ny ad ax ay gc rule: shot_loop.induct)
  case (1 grid p px py nx ny ad ax ay gc)
  show ?case
    apply (subst shot_loop.simps)
    apply (subst shot_list.simps)
    using 1 by (auto simp: Let_def push1_def push_moves_full)
qed

lemma shot_loop_eq':
  "shot_loop grid p px py nx ny ad ax ay = push_moves (shot_list grid p px py nx ny ad ax ay)"
  by (rule ext) (rule shot_loop_eq)

lemma fold_push_concat:
  "fold (\<lambda>x. push_moves (f x)) xs gc = push_moves (concat (map f xs)) gc"
  by (induction xs arbitrary: gc) simp_all

lemma move_loop_eq:
  "move_loop grid p px py d nx ny gc = push_moves (move_list grid p px py d nx ny) gc"
proof (induction grid p px py d nx ny gc rule: move_loop.induct)
  case (1 grid p px py d nx ny gc)
  show ?case
    apply (subst move_loop.simps)
    apply (subst move_list.simps)
    using 1 by (auto simp: Let_def shot_loop_eq' fold_push_concat)
qed

lemma move_loop_eq':
  "move_loop grid p px py d nx ny = push_moves (move_list grid p px py d nx ny)"
  by (rule ext) (rule move_loop_eq)

lemma piece_moves_eq: "piece_moves grid p gc = push_moves (piece_list grid p) gc"
  by (simp add: piece_moves_def piece_list_def move_loop_eq' fold_push_concat Let_def)

lemma piece_moves_eq': "piece_moves grid p = push_moves (piece_list grid p)"
  by (rule ext) (rule piece_moves_eq)

lemma fold_pieces_eq:
  "fold (\<lambda>p gc. if grid ! p \<noteq> color then gc else piece_moves grid p gc) ps gc
     = push_moves (concat (map (\<lambda>p. if grid ! p \<noteq> color then [] else piece_list grid p) ps)) gc"
  by (induction ps arbitrary: gc) (simp_all add: piece_moves_eq)

lemma get_legal_moves_eq:
  "get_legal_moves grid color g =
     (fst (push_moves (legal_moves grid color) (g, 0)), int (move_pool_ptr g),
      snd (push_moves (legal_moves grid color) (g, 0)))"
  by (simp add: get_legal_moves_def legal_moves_def fold_pieces_eq Let_def)

lemma int8_id: "- 128 \<le> a \<Longrightarrow> a < 128 \<Longrightarrow> int8 a = a"
  unfolding int8_def by (simp add: sint_sbintrunc' signed_take_bit_int_eq_self)

lemma int8_small [simp]: "0 \<le> a \<Longrightarrow> a < 8 \<Longrightarrow> int8 a = a"
  by (rule int8_id) simp_all

definition in_grid :: "int \<Rightarrow> int \<Rightarrow> bool" where
  "in_grid x y \<longleftrightarrow> 0 \<le> x \<and> x < 8 \<and> 0 \<le> y \<and> y < 8"

definition gen_ok :: "Board \<Rightarrow> int \<Rightarrow> Move \<Rightarrow> bool" where
  "gen_ok grid color m \<longleftrightarrow>
     in_grid (x0 m) (y0 m) \<and> in_grid (x1 m) (y1 m) \<and> in_grid (x2 m) (y2 m) \<and>
     grid ! nat (x0 m * 8 + y0 m) = color \<and>
     grid ! nat (x1 m * 8 + y1 m) = EMPTY \<and>
     (grid ! nat (x2 m * 8 + y2 m) = EMPTY \<or> x2 m * 8 + y2 m = x0 m * 8 + y0 m) \<and>
     x2 m * 8 + y2 m \<noteq> x1 m * 8 + y1 m"

lemma ray_leaves:
  assumes "1 \<le> k" "in_grid x y" "in_grid (x + k * fst (DIRECTIONS d)) (y + k * snd (DIRECTIONS d))"
  shows "(x + k * fst (DIRECTIONS d)) * 8 + (y + k * snd (DIRECTIONS d)) \<noteq> x * 8 + y"
  using assms by (cases d) (auto simp: in_grid_def)

lemma shot_list_elem:
  assumes "m \<in> set (shot_list grid p px py nx ny ad ax ay)"
    and "in_grid px py" "in_grid nx ny"
    and "0 \<le> k" "ax = nx + k * fst (DIRECTIONS ad)" "ay = ny + k * snd (DIRECTIONS ad)"
  shows "x0 m = px \<and> y0 m = py \<and> x1 m = nx \<and> y1 m = ny \<and> in_grid (x2 m) (y2 m) \<and>
         (grid ! nat (x2 m * 8 + y2 m) = EMPTY \<or> x2 m * 8 + y2 m = int p) \<and>
         x2 m * 8 + y2 m \<noteq> nx * 8 + ny"
  using assms
proof (induction grid p px py nx ny ad ax ay arbitrary: k rule: shot_list.induct)
  case (1 grid p px py nx ny ad ax ay)
  let ?ax = "ax + fst (DIRECTIONS ad)" and ?ay = "ay + snd (DIRECTIONS ad)"
  have unf: "m \<in> set (if ?ax < 0 \<or> ?ax \<ge> 8 \<or> ?ay < 0 \<or> ?ay \<ge> 8 then []
         else if grid ! nat (?ax * 8 + ?ay) \<noteq> EMPTY \<and> ?ax * 8 + ?ay \<noteq> int p then []
         else mk_Move px py nx ny ?ax ?ay # shot_list grid p px py nx ny ad ?ax ?ay)"
    using "1.prems"(1) by (subst (asm) shot_list.simps) (simp add: Let_def)
  then have inr: "in_grid ?ax ?ay"
    and free: "grid ! nat (?ax * 8 + ?ay) = EMPTY \<or> ?ax * 8 + ?ay = int p"
    and mem: "m = mk_Move px py nx ny ?ax ?ay \<or> m \<in> set (shot_list grid p px py nx ny ad ?ax ?ay)"
    by (auto simp: in_grid_def split: if_splits)
  have eqs: "?ax = nx + (k + 1) * fst (DIRECTIONS ad)" "?ay = ny + (k + 1) * snd (DIRECTIONS ad)"
    using "1.prems"(5,6) by (simp_all add: algebra_simps)
  from mem show ?case
  proof
    assume m: "m = mk_Move px py nx ny ?ax ?ay"
    have "?ax * 8 + ?ay \<noteq> nx * 8 + ny"
      using ray_leaves[of "k + 1" nx ny ad] "1.prems"(3,4) inr eqs by simp
    with m inr free "1.prems"(2,3) show ?thesis
      by (simp add: mk_Move_def in_grid_def)
  next
    assume "m \<in> set (shot_list grid p px py nx ny ad ?ax ?ay)"
    moreover have "\<not> (?ax < 0 \<or> 8 \<le> ?ax \<or> ?ay < 0 \<or> 8 \<le> ?ay)"
      using inr by (auto simp: in_grid_def)
    moreover have "\<not> (grid ! nat (?ax * 8 + ?ay) \<noteq> EMPTY \<and> ?ax * 8 + ?ay \<noteq> int p)"
      using free by auto
    ultimately show ?thesis
      using "1.IH"[OF refl refl _ _ _ "1.prems"(2,3) _ eqs] "1.prems"(4) by simp
  qed
qed

lemma move_list_elem:
  assumes "m \<in> set (move_list grid p px py d nx ny)" and "in_grid px py"
  shows "x0 m = px \<and> y0 m = py \<and> in_grid (x1 m) (y1 m) \<and> in_grid (x2 m) (y2 m) \<and>
         grid ! nat (x1 m * 8 + y1 m) = EMPTY \<and>
         (grid ! nat (x2 m * 8 + y2 m) = EMPTY \<or> x2 m * 8 + y2 m = int p) \<and>
         x2 m * 8 + y2 m \<noteq> x1 m * 8 + y1 m"
  using assms
proof (induction grid p px py d nx ny rule: move_list.induct)
  case (1 grid p px py d nx ny)
  let ?nx = "nx + fst (DIRECTIONS d)" and ?ny = "ny + snd (DIRECTIONS d)"
  have unf: "m \<in> set (if ?nx < 0 \<or> ?nx \<ge> 8 \<or> ?ny < 0 \<or> ?ny \<ge> 8 then []
         else if grid ! nat (?nx * 8 + ?ny) \<noteq> EMPTY then []
         else concat (map (\<lambda>ad. shot_list grid p px py ?nx ?ny ad ?nx ?ny) all_dirs)
              @ move_list grid p px py d ?nx ?ny)"
    using "1.prems"(1) by (subst (asm) move_list.simps) (simp add: Let_def)
  then have inr: "in_grid ?nx ?ny"
    and free: "grid ! nat (?nx * 8 + ?ny) = EMPTY"
    and mem: "(\<exists>ad. m \<in> set (shot_list grid p px py ?nx ?ny ad ?nx ?ny))
              \<or> m \<in> set (move_list grid p px py d ?nx ?ny)"
    by (auto simp: in_grid_def split: if_splits)
  from mem show ?case
  proof
    assume "\<exists>ad. m \<in> set (shot_list grid p px py ?nx ?ny ad ?nx ?ny)"
    then obtain ad where "m \<in> set (shot_list grid p px py ?nx ?ny ad ?nx ?ny)" ..
    from shot_list_elem[OF this "1.prems"(2) inr, of 0] inr free show ?thesis by simp
  next
    assume "m \<in> set (move_list grid p px py d ?nx ?ny)"
    moreover have "\<not> (?nx < 0 \<or> 8 \<le> ?nx \<or> ?ny < 0 \<or> 8 \<le> ?ny)"
      using inr by (auto simp: in_grid_def)
    ultimately show ?thesis
      using "1.IH"[OF refl refl _ _ _ "1.prems"(2)] free by simp
  qed
qed

lemma legal_moves_gen_ok:
  assumes "m \<in> set (legal_moves grid color)"
  shows "gen_ok grid color m"
proof -
  from assms obtain p d where p: "p < 64" "grid ! p = color"
    and m: "m \<in> set (move_list grid p (int p div 8) (int p mod 8) d (int p div 8) (int p mod 8))"
    by (auto simp: legal_moves_def piece_list_def split: if_splits)
  have ing: "in_grid (int p div 8) (int p mod 8)"
    using p(1) by (simp add: in_grid_def) presburger
  have idx: "int p div 8 * 8 + int p mod 8 = int p" by simp
  from move_list_elem[OF m ing] p ing idx show ?thesis
    by (simp add: gen_ok_def)
qed

lemma push1_ptr: "move_pool_ptr (fst (push1 m gc)) =
    (if move_pool_ptr (fst gc) < MAX_MOVES_POOL then move_pool_ptr (fst gc) + 1 else move_pool_ptr (fst gc))"
  by (simp add: push1_def)

lemma push_moves_ptr:
  "move_pool_ptr (fst (push_moves ms gc)) =
     move_pool_ptr (fst gc) + min (length ms) (MAX_MOVES_POOL - move_pool_ptr (fst gc))"
  by (induction ms arbitrary: gc) (auto simp: push1_def)

lemma push_moves_count:
  "snd (push_moves ms gc) =
     snd gc + int (min (length ms) (MAX_MOVES_POOL - move_pool_ptr (fst gc)))"
  by (induction ms arbitrary: gc) (auto simp: push1_def)

lemma push_moves_old:
  "k < move_pool_ptr (fst gc) \<Longrightarrow> move_pool (fst (push_moves ms gc)) k = move_pool (fst gc) k"
  by (induction ms arbitrary: gc) (auto simp: push1_def)

lemma push_moves_beyond:
  "MAX_MOVES_POOL \<le> k \<Longrightarrow> move_pool (fst (push_moves ms gc)) k = move_pool (fst gc) k"
  by (induction ms arbitrary: gc) (auto simp: push1_def)

lemma push_moves_new:
  "j < length ms \<Longrightarrow> move_pool_ptr (fst gc) + j < MAX_MOVES_POOL \<Longrightarrow>
   move_pool (fst (push_moves ms gc)) (move_pool_ptr (fst gc) + j) = ms ! j"
proof (induction ms arbitrary: gc j)
  case Nil
  then show ?case by simp
next
  case (Cons m ms)
  show ?case
  proof (cases j)
    case 0
    then show ?thesis using Cons.prems by (simp add: push_moves_old push1_def)
  next
    case (Suc i)
    have "move_pool (fst (push_moves ms (push1 m gc))) (move_pool_ptr (fst (push1 m gc)) + i) = ms ! i"
      using Cons.prems Suc by (intro Cons.IH) (auto simp: push1_def)
    then show ?thesis using Cons.prems Suc by (simp add: push1_def)
  qed
qed

lemma push_moves_frame:
  "node_pool (fst (push_moves ms gc)) = node_pool (fst gc)"
  "node_pool_ptr (fst (push_moves ms gc)) = node_pool_ptr (fst gc)"
  "xorshift_state (fst (push_moves ms gc)) = xorshift_state (fst gc)"
  "best_child_global (fst (push_moves ms gc)) = best_child_global (fst gc)"
  "max_visits_global (fst (push_moves ms gc)) = max_visits_global (fst gc)"
  by (induction ms arbitrary: gc; simp add: push1_def)+

lemma count_list_update:
  "i < length xs \<Longrightarrow>
   count_list (xs[i := v]) y + (if xs ! i = y then 1 else 0) =
   count_list xs y + (if v = y then 1 else 0)"
proof (induction xs arbitrary: i)
  case Nil
  then show ?case by simp
next
  case (Cons a xs)
  show ?case
  proof (cases i)
    case 0
    then show ?thesis by simp
  next
    case (Suc j)
    then have "j < length xs" using Cons.prems by simp
    from Cons.IH[OF this] Suc show ?thesis by (auto split: if_splits)
  qed
qed

lemma apply_move_effect:
  assumes len: "length grid = 64" and ok: "gen_ok grid color m" and col: "color \<noteq> EMPTY"
  shows "(let src = nat (x0 m * 8 + y0 m); dst = nat (x1 m * 8 + y1 m);
              obs = nat (x2 m * 8 + y2 m); grid' = apply_move grid m
          in src < 64 \<and> dst < 64 \<and> obs < 64 \<and> dst \<noteq> src \<and> obs \<noteq> dst \<and>
             length grid' = 64 \<and>
             grid ! src = color \<and> grid ! dst = EMPTY \<and>
             grid' ! dst = color \<and> grid' ! obs = OBSTACLE \<and>
             (obs \<noteq> src \<longrightarrow> grid ! obs = EMPTY \<and> grid' ! src = EMPTY) \<and>
             (\<forall>i<64. i \<noteq> src \<and> i \<noteq> dst \<and> i \<noteq> obs \<longrightarrow> grid' ! i = grid ! i))"
proof -
  let ?src = "nat (x0 m * 8 + y0 m)" and ?dst = "nat (x1 m * 8 + y1 m)"
    and ?obs = "nat (x2 m * 8 + y2 m)"
  from ok have b: "?src < 64" "?dst < 64" "?obs < 64"
    by (auto simp: gen_ok_def in_grid_def)
  from ok have v: "grid ! ?src = color" "grid ! ?dst = EMPTY" 
    by (auto simp: gen_ok_def)
  from ok have nn: "0 \<le> x0 m * 8 + y0 m" "0 \<le> x1 m * 8 + y1 m" "0 \<le> x2 m * 8 + y2 m"
    by (auto simp: gen_ok_def in_grid_def)
  from ok nn have d1: "?obs \<noteq> ?dst" by (auto simp: gen_ok_def)
  from v col have d2: "?dst \<noteq> ?src" by auto
  from ok nn have o: "?obs \<noteq> ?src \<Longrightarrow> grid ! ?obs = EMPTY"
    by (auto simp: gen_ok_def)
  show ?thesis
    using b v d1 d2 o len
    by (auto simp: Let_def apply_move_def nth_list_update)
qed

lemma apply_move_count:
  assumes len: "length grid = 64" and ok: "gen_ok grid color m" and col: "color \<noteq> EMPTY"
    and y: "y \<noteq> EMPTY" "y \<noteq> OBSTACLE"
  shows "count_list (apply_move grid m) y = count_list grid y"
proof -
  let ?src = "nat (x0 m * 8 + y0 m)" and ?dst = "nat (x1 m * 8 + y1 m)"
    and ?obs = "nat (x2 m * 8 + y2 m)"
  note e = apply_move_effect[OF len ok col, unfolded Let_def]
  let ?g1 = "grid[?src := EMPTY]" and ?g2 = "grid[?src := EMPTY, ?dst := color]"
  have g: "apply_move grid m = ?g2[?obs := OBSTACLE]"
    using e by (simp add: apply_move_def Let_def)
  have c1: "count_list ?g1 y + (if color = y then 1 else 0) = count_list grid y"
    using count_list_update[of ?src grid EMPTY y] e len y by simp
  have c2: "count_list ?g2 y = count_list ?g1 y + (if color = y then 1 else 0)"
    using count_list_update[of ?dst ?g1 color y] e len y by (simp add: nth_list_update)
  have "?g2 ! ?obs = EMPTY \<or> ?g2 ! ?obs = EMPTY"
    using e len by (cases "?obs = ?src") (simp_all add: nth_list_update)
  then have c3: "count_list (?g2[?obs := OBSTACLE]) y = count_list ?g2 y"
    using count_list_update[of ?obs ?g2 OBSTACLE y] e len y by simp
  show ?thesis using g c1 c2 c3 by simp
qed

lemma get_legal_moves_result:
  assumes "get_legal_moves grid color g = (g', start, count)"
  shows "start = int (move_pool_ptr g)"
    and "count = int (min (length (legal_moves grid color)) (MAX_MOVES_POOL - move_pool_ptr g))"
    and "move_pool_ptr g' = move_pool_ptr g + nat count"
    and "\<And>j. j < nat count \<Longrightarrow> move_pool g' (move_pool_ptr g + j) = legal_moves grid color ! j"
    and "\<And>k. k < move_pool_ptr g \<Longrightarrow> move_pool g' k = move_pool g k"
    and "\<And>k. MAX_MOVES_POOL \<le> k \<Longrightarrow> move_pool g' k = move_pool g k"
    and "node_pool g' = node_pool g" "node_pool_ptr g' = node_pool_ptr g"
    and "xorshift_state g' = xorshift_state g" "best_child_global g' = best_child_global g"
    and "max_visits_global g' = max_visits_global g"
proof -
  let ?r = "push_moves (legal_moves grid color) (g, 0)"
  from assms have g': "g' = fst ?r" and s: "start = int (move_pool_ptr g)" and c: "count = snd ?r"
    by (simp_all add: get_legal_moves_eq)
  show "start = int (move_pool_ptr g)" by fact
  show c': "count = int (min (length (legal_moves grid color)) (MAX_MOVES_POOL - move_pool_ptr g))"
    using c by (simp add: push_moves_count)
  show "move_pool_ptr g' = move_pool_ptr g + nat count"
    unfolding g' c' by (simp add: push_moves_ptr)
  show "move_pool g' (move_pool_ptr g + j) = legal_moves grid color ! j" if "j < nat count" for j
    using that push_moves_new[of j "legal_moves grid color" "(g, 0)"] unfolding g' c' by auto
  show "move_pool g' k = move_pool g k" if "k < move_pool_ptr g" for k
    using that push_moves_old[of k "(g, 0)"] unfolding g' by simp
  show "move_pool g' k = move_pool g k" if "MAX_MOVES_POOL \<le> k" for k
    using that push_moves_beyond[of k _ "(g, 0)"] unfolding g' by simp
  show "node_pool g' = node_pool g" "node_pool_ptr g' = node_pool_ptr g"
    "xorshift_state g' = xorshift_state g" "best_child_global g' = best_child_global g"
    "max_visits_global g' = max_visits_global g"
    unfolding g' by (simp_all add: push_moves_frame)
qed

lemma generated_gen_ok:
  assumes "get_legal_moves grid color g = (g', start, count)" "start \<le> k" "k < start + count"
  shows "gen_ok grid color (move_pool g' (nat k))"
proof -
  note r = get_legal_moves_result[OF assms(1)]
  define j where "j = nat (k - start)"
  have j: "j < nat count" "nat k = move_pool_ptr g + j"
    using assms(2,3) r(1) by (auto simp: j_def)
  have "j < length (legal_moves grid color)" using j(1) r(2) by simp
  then have "legal_moves grid color ! j \<in> set (legal_moves grid color)" by simp
  then show ?thesis using r(4)[OF j(1)] j(2) legal_moves_gen_ok by simp
qed

lemma new_Board_first_moves:
  "take 2 (legal_moves new_Board BLACK) =
     [\<lparr>x0 = 0, y0 = 2, x1 = 1, y1 = 2, x2 = 0, y2 = 2\<rparr>,
      \<lparr>x0 = 0, y0 = 2, x1 = 1, y1 = 2, x2 = 2, y2 = 2\<rparr>]"
  by code_simp

lemma new_Board_gen:
  "fst (snd (get_legal_moves new_Board BLACK start_globals)) = 0"
  "2 \<le> snd (snd (get_legal_moves new_Board BLACK start_globals))"
  "move_pool (fst (get_legal_moves new_Board BLACK start_globals)) 0
     = \<lparr>x0 = 0, y0 = 2, x1 = 1, y1 = 2, x2 = 0, y2 = 2\<rparr>"
  "move_pool (fst (get_legal_moves new_Board BLACK start_globals)) 1
     = \<lparr>x0 = 0, y0 = 2, x1 = 1, y1 = 2, x2 = 2, y2 = 2\<rparr>"
proof -
  obtain g' start count where r: "get_legal_moves new_Board BLACK start_globals = (g', start, count)"
    by (metis prod_cases3)
  note f = get_legal_moves_result[OF r]
  have p0: "move_pool_ptr start_globals = 0" by (simp add: start_globals_def)
  have len: "2 \<le> length (legal_moves new_Board BLACK)"
    using arg_cong[OF new_Board_first_moves, of length] by simp
  have n0: "legal_moves new_Board BLACK ! 0 = \<lparr>x0 = 0, y0 = 2, x1 = 1, y1 = 2, x2 = 0, y2 = 2\<rparr>"
    using arg_cong[OF new_Board_first_moves, of "\<lambda>xs. xs ! 0"] by simp
  have n1: "legal_moves new_Board BLACK ! 1 = \<lparr>x0 = 0, y0 = 2, x1 = 1, y1 = 2, x2 = 2, y2 = 2\<rparr>"
    using arg_cong[OF new_Board_first_moves, of "\<lambda>xs. xs ! 1"] by simp
  have c2: "2 \<le> count" using f(2) len p0 by (simp add: MAX_MOVES_POOL_def)
  show "fst (snd (get_legal_moves new_Board BLACK start_globals)) = 0"
    using r f(1) p0 by simp
  show "2 \<le> snd (snd (get_legal_moves new_Board BLACK start_globals))"
    using r c2 by simp
  show "move_pool (fst (get_legal_moves new_Board BLACK start_globals)) 0
     = \<lparr>x0 = 0, y0 = 2, x1 = 1, y1 = 2, x2 = 0, y2 = 2\<rparr>"
    using f(4)[of 0] c2 n0 r p0 by simp
  show "move_pool (fst (get_legal_moves new_Board BLACK start_globals)) 1
     = \<lparr>x0 = 0, y0 = 2, x1 = 1, y1 = 2, x2 = 2, y2 = 2\<rparr>"
    using f(4)[of 1] c2 n1 r p0 by simp
qed

lemma new_Board_length: "length new_Board = 64"
  by (simp add: new_Board_def init_board_def)

lemma generated_move_effect:
  assumes "length grid = 64" and "color = BLACK \<or> color = WHITE"
    and "get_legal_moves grid color g = (g', start, count)"
    and "start \<le> k" and "k < start + count"
  shows "(let m = move_pool g' (nat k);
              src = nat (x0 m * 8 + y0 m); dst = nat (x1 m * 8 + y1 m);
              obs = nat (x2 m * 8 + y2 m); grid' = apply_move grid m
          in src < 64 \<and> dst < 64 \<and> obs < 64 \<and> dst \<noteq> src \<and> obs \<noteq> dst \<and>
             grid ! src = color \<and> grid ! dst = EMPTY \<and>
             grid' ! dst = color \<and> grid' ! obs = OBSTACLE \<and>
             (obs \<noteq> src \<longrightarrow> grid ! obs = EMPTY \<and> grid' ! src = EMPTY) \<and>
             (\<forall>i<64. i \<noteq> src \<and> i \<noteq> dst \<and> i \<noteq> obs \<longrightarrow> grid' ! i = grid ! i) \<and>
             count_list grid' BLACK = count_list grid BLACK \<and>
             count_list grid' WHITE = count_list grid WHITE \<and>
             (\<forall>i<64. grid ! i = OBSTACLE \<longrightarrow> grid' ! i = OBSTACLE))"
proof -
  define m where "m = move_pool g' (nat k)"
  define src where "src = nat (x0 m * 8 + y0 m)"
  define dst where "dst = nat (x1 m * 8 + y1 m)"
  define obs where "obs = nat (x2 m * 8 + y2 m)"
  define grid' where "grid' = apply_move grid m"
  have ok: "gen_ok grid color m" unfolding m_def by (rule generated_gen_ok[OF assms(3-5)])
  have col: "color \<noteq> EMPTY" using assms(2) by auto
  have col2: "color \<noteq> OBSTACLE" using assms(2) by auto
  note e = apply_move_effect[OF assms(1) ok col, unfolded Let_def,
      folded src_def dst_def obs_def grid'_def]
  have e1: "src < 64 \<and> dst < 64 \<and> obs < 64 \<and> dst \<noteq> src \<and> obs \<noteq> dst"
    and e2: "grid ! src = color \<and> grid ! dst = EMPTY \<and> grid' ! dst = color \<and> grid' ! obs = OBSTACLE"
    and e3: "obs \<noteq> src \<longrightarrow> grid ! obs = EMPTY \<and> grid' ! src = EMPTY"
    and e4: "\<forall>i<64. i \<noteq> src \<and> i \<noteq> dst \<and> i \<noteq> obs \<longrightarrow> grid' ! i = grid ! i"
    using e by blast+
  have cb: "count_list grid' BLACK = count_list grid BLACK"
    unfolding grid'_def by (rule apply_move_count[OF assms(1) ok col]) simp_all
  have cw: "count_list grid' WHITE = count_list grid WHITE"
    unfolding grid'_def by (rule apply_move_count[OF assms(1) ok col]) simp_all
  have ob: "\<forall>i<64. grid ! i = OBSTACLE \<longrightarrow> grid' ! i = OBSTACLE"
  proof (intro allI impI)
    fix i :: nat assume i: "i < 64" "grid ! i = OBSTACLE"
    have n1: "i \<noteq> src" using e2 i(2) col2 by auto
    have n2: "i \<noteq> dst" using e2 i(2) by auto
    show "grid' ! i = OBSTACLE"
    proof (cases "i = obs")
      case True then show ?thesis using e2 by simp
    next
      case False then show ?thesis using e4 n1 n2 i by simp
    qed
  qed
  have "src < 64 \<and> dst < 64 \<and> obs < 64 \<and> dst \<noteq> src \<and> obs \<noteq> dst \<and>
             grid ! src = color \<and> grid ! dst = EMPTY \<and>
             grid' ! dst = color \<and> grid' ! obs = OBSTACLE \<and>
             (obs \<noteq> src \<longrightarrow> grid ! obs = EMPTY \<and> grid' ! src = EMPTY) \<and>
             (\<forall>i<64. i \<noteq> src \<and> i \<noteq> dst \<and> i \<noteq> obs \<longrightarrow> grid' ! i = grid ! i) \<and>
             count_list grid' BLACK = count_list grid BLACK \<and>
             count_list grid' WHITE = count_list grid WHITE \<and>
             (\<forall>i<64. grid ! i = OBSTACLE \<longrightarrow> grid' ! i = OBSTACLE)"
    using e1 e2 e3 e4 cb cw ob by blast
  then show ?thesis
    unfolding Let_def m_def[symmetric] src_def[symmetric] dst_def[symmetric] obs_def[symmetric]
      grid'_def[symmetric] .
qed

text \<open>
  Claim C1. \<^verbatim>\<open>apply_move\<close> makes three writes in sequence: Empty to the source cell, the
  piece to the destination cell, Obstacle to the obstacle cell. For every move that
  \<^verbatim>\<open>get_legal_moves\<close> writes to the pool for a side, each write is one of the three
  transformations of the claim: the first turns a cell holding the side's piece into Empty,
  the second turns an Empty cell into the side's piece, the third turns an Empty cell into
  an Obstacle, and each write changes no other cell. When the obstacle cell is the vacated
  source cell, the cell is Empty when the third write reaches it. The number of pieces of
  each side is unchanged and every cell that was an Obstacle stays one.
\<close>

theorem generated_move_stepwise:
  assumes "length grid = 64" and "color = BLACK \<or> color = WHITE"
    and "get_legal_moves grid color g = (g', start, count)"
    and "start \<le> k" and "k < start + count"
  shows "(let m = move_pool g' (nat k);
              src = nat (x0 m * 8 + y0 m); dst = nat (x1 m * 8 + y1 m);
              obs = nat (x2 m * 8 + y2 m);
              g1 = grid[src := EMPTY]; g2 = g1[dst := grid ! src]; g3 = g2[obs := OBSTACLE]
          in src < 64 \<and> dst < 64 \<and> obs < 64 \<and>
             grid ! src = color \<and> g1 ! src = EMPTY \<and> (\<forall>i<64. i \<noteq> src \<longrightarrow> g1 ! i = grid ! i) \<and>
             g1 ! dst = EMPTY \<and> g2 ! dst = color \<and> (\<forall>i<64. i \<noteq> dst \<longrightarrow> g2 ! i = g1 ! i) \<and>
             g2 ! obs = EMPTY \<and> g3 ! obs = OBSTACLE \<and> (\<forall>i<64. i \<noteq> obs \<longrightarrow> g3 ! i = g2 ! i) \<and>
             apply_move grid m = g3 \<and>
             count_list g3 BLACK = count_list grid BLACK \<and>
             count_list g3 WHITE = count_list grid WHITE \<and>
             (\<forall>i<64. grid ! i = OBSTACLE \<longrightarrow> g3 ! i = OBSTACLE))"
proof -
  define m where "m = move_pool g' (nat k)"
  define src where "src = nat (x0 m * 8 + y0 m)"
  define dst where "dst = nat (x1 m * 8 + y1 m)"
  define obs where "obs = nat (x2 m * 8 + y2 m)"
  define g1 where "g1 = grid[src := EMPTY]"
  define g2 where "g2 = g1[dst := grid ! src]"
  define g3 where "g3 = g2[obs := OBSTACLE]"
  have a: "apply_move grid m = g3"
    by (simp add: apply_move_def Let_def g3_def g2_def g1_def src_def dst_def obs_def)
  note e = generated_move_effect[OF assms, unfolded Let_def, folded m_def,
      folded src_def dst_def obs_def, unfolded a]
  have b: "src < 64" "dst < 64" "obs < 64" "dst \<noteq> src" "obs \<noteq> dst"
    and v: "grid ! src = color" "grid ! dst = EMPTY"
    and o: "obs \<noteq> src \<longrightarrow> grid ! obs = EMPTY"
    and cb: "count_list g3 BLACK = count_list grid BLACK"
    and cw: "count_list g3 WHITE = count_list grid WHITE"
    and ob: "\<forall>i<64. grid ! i = OBSTACLE \<longrightarrow> g3 ! i = OBSTACLE"
    using e by blast+
  have s1: "g1 ! src = EMPTY" "\<forall>i<64. i \<noteq> src \<longrightarrow> g1 ! i = grid ! i"
    using b assms(1) by (simp_all add: g1_def)
  have s2: "g1 ! dst = EMPTY" "g2 ! dst = color" "\<forall>i<64. i \<noteq> dst \<longrightarrow> g2 ! i = g1 ! i"
    using b v assms(1) by (simp_all add: g2_def g1_def)
  have "g2 ! obs = EMPTY"
  proof (cases "obs = src")
    case True
    then show ?thesis using b assms(1) by (simp add: g2_def g1_def)
  next
    case False
    then show ?thesis using b o assms(1) by (simp add: g2_def g1_def)
  qed
  then have s3: "g2 ! obs = EMPTY" "g3 ! obs = OBSTACLE" "\<forall>i<64. i \<noteq> obs \<longrightarrow> g3 ! i = g2 ! i"
    using b assms(1) by (simp_all add: g3_def g2_def g1_def)
  have "src < 64 \<and> dst < 64 \<and> obs < 64 \<and>
             grid ! src = color \<and> g1 ! src = EMPTY \<and> (\<forall>i<64. i \<noteq> src \<longrightarrow> g1 ! i = grid ! i) \<and>
             g1 ! dst = EMPTY \<and> g2 ! dst = color \<and> (\<forall>i<64. i \<noteq> dst \<longrightarrow> g2 ! i = g1 ! i) \<and>
             g2 ! obs = EMPTY \<and> g3 ! obs = OBSTACLE \<and> (\<forall>i<64. i \<noteq> obs \<longrightarrow> g3 ! i = g2 ! i) \<and>
             apply_move grid m = g3 \<and>
             count_list g3 BLACK = count_list grid BLACK \<and>
             count_list g3 WHITE = count_list grid WHITE \<and>
             (\<forall>i<64. grid ! i = OBSTACLE \<longrightarrow> g3 ! i = OBSTACLE)"
    using b(1-3) v(1) s1 s2 s3 a cb cw ob by blast
  then show ?thesis
    unfolding Let_def m_def[symmetric] src_def[symmetric] dst_def[symmetric] obs_def[symmetric]
      g1_def[symmetric] g2_def[symmetric] g3_def[symmetric] .
qed

text \<open>
  The theorem at the first move generated for Black on the starting position, (0,2) to
  (1,2) with the obstacle on the vacated cell (0,2): cell 2 holds Black, is Empty after the
  first write and after the second, and holds the Obstacle after the third.
\<close>

theorem generated_move_stepwise_witness:
  "length new_Board = 64 \<and>
   0 < snd (snd (get_legal_moves new_Board BLACK start_globals)) \<and>
   move_pool (fst (get_legal_moves new_Board BLACK start_globals)) 0
     = \<lparr>x0 = 0, y0 = 2, x1 = 1, y1 = 2, x2 = 0, y2 = 2\<rparr> \<and>
   new_Board ! 2 = BLACK \<and> new_Board[2 := EMPTY] ! 2 = EMPTY \<and>
   new_Board[2 := EMPTY] ! 10 = EMPTY \<and> new_Board[2 := EMPTY, 10 := new_Board ! 2] ! 10 = BLACK \<and>
   new_Board[2 := EMPTY, 10 := new_Board ! 2] ! 2 = EMPTY \<and>
   new_Board[2 := EMPTY, 10 := new_Board ! 2, 2 := OBSTACLE] ! 2 = OBSTACLE \<and>
   apply_move new_Board \<lparr>x0 = 0, y0 = 2, x1 = 1, y1 = 2, x2 = 0, y2 = 2\<rparr>
     = new_Board[2 := EMPTY, 10 := new_Board ! 2, 2 := OBSTACLE] \<and>
   count_list (new_Board[2 := EMPTY, 10 := new_Board ! 2, 2 := OBSTACLE]) BLACK
     = count_list new_Board BLACK \<and>
   count_list (new_Board[2 := EMPTY, 10 := new_Board ! 2, 2 := OBSTACLE]) WHITE
     = count_list new_Board WHITE"
proof -
  have r: "get_legal_moves new_Board BLACK start_globals =
      (fst (get_legal_moves new_Board BLACK start_globals),
       fst (snd (get_legal_moves new_Board BLACK start_globals)),
       snd (snd (get_legal_moves new_Board BLACK start_globals)))" by simp
  have k1: "fst (snd (get_legal_moves new_Board BLACK start_globals)) \<le> 0"
    and k2: "0 < fst (snd (get_legal_moves new_Board BLACK start_globals))
               + snd (snd (get_legal_moves new_Board BLACK start_globals))"
    using new_Board_gen(1,2) by simp_all
  have col: "BLACK = BLACK \<or> BLACK = WHITE" by simp
  have n2: "new_Board ! 2 = BLACK"
    by code_simp
  from generated_move_stepwise[OF new_Board_length col r k1 k2] new_Board_gen(2,3) new_Board_length
  show ?thesis by (simp add: Let_def n2)
qed

section \<open>Properties of the evaluator\<close>

lemma far_out:
  "0 \<le> x \<Longrightarrow> x < 8 \<Longrightarrow> 0 \<le> y \<Longrightarrow> y < 8 \<Longrightarrow> 8 \<le> k \<Longrightarrow> \<not> free_step grid d x y k"
  by (cases d) (auto simp: free_step_def Let_def)

lemma mob_ray_count:
  assumes "0 \<le> x" "x < 8" "0 \<le> y" "y < 8"
  shows "mob_ray grid d (x + int k0 * fst (DIRECTIONS d)) (y + int k0 * snd (DIRECTIONS d)) acc =
         acc + int (length (filter (\<lambda>k. list_all (free_step grid d x y) [k0..<Suc k]) [k0..<8]))"
proof (induction "8 - k0" arbitrary: k0 acc)
  case 0
  then have k: "8 \<le> k0" by simp
  have "\<not> free_step grid d x y k0" using far_out[OF assms k] .
  then have "mob_ray grid d (x + int k0 * fst (DIRECTIONS d)) (y + int k0 * snd (DIRECTIONS d)) acc = acc"
    by (subst mob_ray.simps) (auto simp: free_step_def Let_def)
  then show ?case using k by simp
next
  case (Suc n)
  then have k: "k0 < 8" by simp
  let ?P = "\<lambda>k0 k. list_all (free_step grid d x y) [k0..<Suc k]"
  show ?case
  proof (cases "free_step grid d x y k0")
    case True
    have step: "x + int k0 * fst (DIRECTIONS d) + fst (DIRECTIONS d) = x + int (Suc k0) * fst (DIRECTIONS d)"
      "y + int k0 * snd (DIRECTIONS d) + snd (DIRECTIONS d) = y + int (Suc k0) * snd (DIRECTIONS d)"
      by (simp_all add: algebra_simps)
    have "mob_ray grid d (x + int k0 * fst (DIRECTIONS d)) (y + int k0 * snd (DIRECTIONS d)) acc
        = mob_ray grid d (x + int (Suc k0) * fst (DIRECTIONS d)) (y + int (Suc k0) * snd (DIRECTIONS d)) (acc + 1)"
      using True by (subst mob_ray.simps) (simp add: free_step_def Let_def step)
    also have "\<dots> = acc + 1 + int (length (filter (?P (Suc k0)) [Suc k0..<8]))"
      using Suc.hyps(1)[of "Suc k0" "acc + 1"] Suc.hyps(2) by simp
    also have "filter (?P (Suc k0)) [Suc k0..<8] = filter (?P k0) [Suc k0..<8]"
    proof (rule filter_cong[OF refl])
      fix k assume "k \<in> set [Suc k0..<8]"
      then have "[k0..<Suc k] = k0 # [Suc k0..<Suc k]" by (simp add: upt_conv_Cons)
      then show "?P (Suc k0) k = ?P k0 k" using True by simp
    qed
    also have "acc + 1 + int (length (filter (?P k0) [Suc k0..<8]))
        = acc + int (length (filter (?P k0) [k0..<8]))"
      using k True by (simp add: upt_conv_Cons)
    finally show ?thesis .
  next
    case False
    have "mob_ray grid d (x + int k0 * fst (DIRECTIONS d)) (y + int k0 * snd (DIRECTIONS d)) acc = acc"
      using False by (subst mob_ray.simps) (auto simp: free_step_def Let_def)
    moreover have "filter (?P k0) [k0..<8] = []"
    proof -
      have "\<not> ?P k0 k" if "k \<in> set [k0..<8]" for k
      proof -
        from that have "[k0..<Suc k] = k0 # [Suc k0..<Suc k]" by (simp add: upt_conv_Cons)
        then show ?thesis using False by simp
      qed
      then show ?thesis by (simp add: filter_empty_conv)
    qed
    ultimately show ?thesis by simp
  qed
qed

lemma mob_ray_slide:
  assumes "p < 64"
  shows "mob_ray grid d (int p div 8 + fst (DIRECTIONS d)) (int p mod 8 + snd (DIRECTIONS d)) acc
           = acc + int (slide_count grid d (int p div 8) (int p mod 8))"
proof -
  have r: "0 \<le> int p div 8" "int p div 8 < 8" "0 \<le> int p mod 8" "int p mod 8 < 8"
    using assms by auto
  from mob_ray_count[OF r, of grid d 1 acc] show ?thesis
    by (simp add: slide_count_def)
qed

lemma fold_dirs_mobility:
  assumes "p < 64"
  shows "fold (\<lambda>i acc. mob_ray grid i (int p div 8 + fst (DIRECTIONS i)) (int p mod 8 + snd (DIRECTIONS i)) acc) ds acc
         = acc + (\<Sum>d\<leftarrow>ds. int (slide_count grid d (int p div 8) (int p mod 8)))"
  by (induction ds arbitrary: acc) (simp_all add: mob_ray_slide[OF assms])

lemma fold_pieces_mobility:
  assumes "\<forall>j\<in>set js. pieces ! j < 64"
  shows "fold (\<lambda>j acc.
             let p = pieces ! j; px = int p div 8; py = int p mod 8
             in fold (\<lambda>i acc. mob_ray grid i (px + fst (DIRECTIONS i)) (py + snd (DIRECTIONS i)) acc)
                  all_dirs acc) js acc
         = acc + (\<Sum>j\<leftarrow>js. piece_mobility grid (pieces ! j))"
  using assms
  by (induction js arbitrary: acc) (simp_all add: Let_def fold_dirs_mobility piece_mobility_def)

lemma calc_mobility_slide:
  assumes "\<forall>j<4. pieces ! j < 64"
  shows "calc_mobility grid pieces = slide_mobility grid pieces"
  unfolding calc_mobility_def slide_mobility_def
  using fold_pieces_mobility[of "[0..<4]" pieces grid 0] assms by simp

lemma collect_pieces_fold:
  fixes p :: int
  assumes "p \<noteq> 0"
  shows "fold (\<lambda>i (my_pieces, opp_pieces).
             if grid ! i = p then (my_pieces @ [i], opp_pieces)
             else if grid ! i = - p then (my_pieces, opp_pieces @ [i])
             else (my_pieces, opp_pieces)) xs (a, b)
         = (a @ filter (\<lambda>i. grid ! i = p) xs, b @ filter (\<lambda>i. grid ! i = - p) xs)"
proof -
  have "p \<noteq> - p" using assms by arith
  then show ?thesis by (induction xs arbitrary: a b) auto
qed

lemma collect_pieces_eq:
  "p \<noteq> 0 \<Longrightarrow> collect_pieces grid p =
     (filter (\<lambda>i. grid ! i = p) [0..<64], filter (\<lambda>i. grid ! i = - p) [0..<64])"
  unfolding collect_pieces_def by (subst collect_pieces_fold) simp_all

lemma length_filter_nth: "length (filter (\<lambda>i. xs ! i = v) [0..<length xs]) = count_list xs v"
proof -
  have "count_list xs v = length (filter (\<lambda>x. x = v) xs)"
    by (induction xs) simp_all
  also have "\<dots> = length (filter (\<lambda>x. x = v) (map (nth xs) [0..<length xs]))"
    by (simp add: map_nth)
  also have "\<dots> = length (filter (\<lambda>i. xs ! i = v) [0..<length xs])"
    by (simp add: filter_map comp_def)
  finally show ?thesis by simp
qed

lemma filter_idx_bound: "\<forall>j < length (filter P [0..<n]). filter P [0..<n] ! j < n"
proof (intro allI impI)
  fix j assume "j < length (filter P [0..<n])"
  then have "filter P [0..<n] ! j \<in> set (filter P [0..<n])" by (rule nth_mem)
  then show "filter P [0..<n] ! j < n" by simp
qed

lemma mob_raw_scores:
  "mob (raw_scores grid p) =
     real_of_int (calc_mobility grid (fst (collect_pieces grid p))
                  - calc_mobility grid (snd (collect_pieces grid p)))"
  by (simp add: raw_scores_def Let_def)

lemma length_filter_mono:
  "(\<And>x. x \<in> set xs \<Longrightarrow> P x \<Longrightarrow> Q x) \<Longrightarrow> length (filter P xs) \<le> length (filter Q xs)"
  by (induction xs) auto

lemma slide_count_le_edge: "slide_count grid d x y \<le> edge_count d x y"
  unfolding slide_count_def edge_count_def
proof (rule length_filter_mono)
  fix k assume "k \<in> set [1..<8]" and a: "list_all (free_step grid d x y) [1..<Suc k]"
  then have "k \<in> set [1..<Suc k]" by simp
  with a have "free_step grid d x y k" unfolding list_all_iff by blast
  then show "0 \<le> x + int k * fst (DIRECTIONS d) \<and> x + int k * fst (DIRECTIONS d) < 8 \<and>
             0 \<le> y + int k * snd (DIRECTIONS d) \<and> y + int k * snd (DIRECTIONS d) < 8"
    by (simp add: free_step_def Let_def)
qed

lemma edge_total_all:
  "list_all (\<lambda>p. (\<Sum>d\<leftarrow>all_dirs. int (edge_count d (int p div 8) (int p mod 8))) \<le> 27) [0..<64]"
  by code_simp

lemma piece_mobility_bound:
  assumes "p < 64"
  shows "0 \<le> piece_mobility grid p \<and> piece_mobility grid p \<le> 27"
proof -
  have "piece_mobility grid p \<le> (\<Sum>d\<leftarrow>all_dirs. int (edge_count d (int p div 8) (int p mod 8)))"
    unfolding piece_mobility_def
    by (rule sum_list_mono) (simp add: slide_count_le_edge)
  moreover have "(\<Sum>d\<leftarrow>all_dirs. int (edge_count d (int p div 8) (int p mod 8))) \<le> 27"
    using edge_total_all assms unfolding list_all_iff by simp
  moreover have "0 \<le> piece_mobility grid p"
    unfolding piece_mobility_def by (rule sum_list_nonneg) auto
  ultimately show ?thesis by simp
qed

lemma board_after_first_facts:
  "length board_after_first = 64"
  "count_list board_after_first BLACK = 4"
  "count_list board_after_first WHITE = 4"
  "filter (\<lambda>i. board_after_first ! i = BLACK) [0..<64] = [10, 16, 40, 58]"
  "filter (\<lambda>i. board_after_first ! i = WHITE) [0..<64] = [5, 23, 47, 61]"
  by code_simp+

lemma board_after_first_mobility:
  "calc_mobility board_after_first [10, 16, 40, 58] = 56"
  "calc_mobility board_after_first [5, 23, 47, 61] = 62"
  "single_step_mobility board_after_first [10, 16, 40, 58] = 22"
  "single_step_mobility board_after_first [5, 23, 47, 61] = 20"
  by code_simp+

text \<open>
  Claim C5, as the code has it. For a board with four pieces of each side, the Mobility
  component of the evaluator is the number of Empty cells reachable by sliding any number
  of steps (up to the first cell that is not Empty, or the edge) along each of the 8
  directions from each of the side's four pieces, summed without removing duplicates, minus
  the same number for the opponent. A piece contributes at most 27.
\<close>

theorem mobility_component:
  assumes "length grid = 64" and "root_player = BLACK \<or> root_player = WHITE"
    and "count_list grid root_player = 4" and "count_list grid (- root_player) = 4"
  shows "mob (raw_scores grid root_player) =
           real_of_int (slide_mobility grid (filter (\<lambda>i. grid ! i = root_player) [0..<64])
                        - slide_mobility grid (filter (\<lambda>i. grid ! i = - root_player) [0..<64])) \<and>
         (\<forall>p<64. 0 \<le> piece_mobility grid p \<and> piece_mobility grid p \<le> 27)"
proof -
  have p0: "root_player \<noteq> 0" using assms(2) by auto
  let ?my = "filter (\<lambda>i. grid ! i = root_player) [0..<64]"
  let ?op = "filter (\<lambda>i. grid ! i = - root_player) [0..<64]"
  have lm: "length ?my = 4" using length_filter_nth[of grid root_player] assms(1,3) by simp
  have lo: "length ?op = 4" using length_filter_nth[of grid "- root_player"] assms(1,4) by simp
  have bm: "\<forall>j<4. ?my ! j < 64" using filter_idx_bound[of "\<lambda>i. grid ! i = root_player" 64] lm by simp
  have bo: "\<forall>j<4. ?op ! j < 64" using filter_idx_bound[of "\<lambda>i. grid ! i = - root_player" 64] lo by simp
  have "mob (raw_scores grid root_player) = real_of_int (calc_mobility grid ?my - calc_mobility grid ?op)"
    by (simp add: mob_raw_scores collect_pieces_eq[OF p0])
  then show ?thesis
    using calc_mobility_slide[OF bm] calc_mobility_slide[OF bo] piece_mobility_bound by simp
qed

theorem mobility_component_witness:
  "length board_after_first = 64 \<and> count_list board_after_first BLACK = 4 \<and>
   count_list board_after_first (- BLACK) = 4 \<and>
   mob (raw_scores board_after_first BLACK) =
     real_of_int (slide_mobility board_after_first [10, 16, 40, 58]
                  - slide_mobility board_after_first [5, 23, 47, 61]) \<and>
   piece_mobility board_after_first 10 \<le> 27"
proof -
  have s: "BLACK = BLACK \<or> BLACK = WHITE" by simp
  have c: "count_list board_after_first (- BLACK) = 4" using board_after_first_facts(3) by simp
  from mobility_component[OF board_after_first_facts(1) s board_after_first_facts(2) c]
  show ?thesis using board_after_first_facts by simp
qed

text \<open>
  The single-step reading of the claim fails. After Black's first move (0,2) to (1,2)
  with the obstacle on (2,2), the component is 56 - 62 = -6, while the cells adjacent to
  the pieces give 22 - 20 = 2; Black's four pieces contribute 56, more than 4 times 8.
\<close>

theorem single_step_mobility_counterexample:
  "mob (raw_scores board_after_first BLACK) = - 6 \<and>
   real_of_int (single_step_mobility board_after_first (fst (collect_pieces board_after_first BLACK))
                - single_step_mobility board_after_first (snd (collect_pieces board_after_first BLACK)))
     = 2 \<and>
   fst (collect_pieces board_after_first BLACK) = [10, 16, 40, 58] \<and>
   calc_mobility board_after_first [10, 16, 40, 58] = 56"
proof -
  have "collect_pieces board_after_first BLACK = ([10, 16, 40, 58], [5, 23, 47, 61])"
    using board_after_first_facts(4,5) by (simp add: collect_pieces_eq)
  then show ?thesis
    using board_after_first_mobility by (simp add: mob_raw_scores)
qed

lemma score_cell_fields:
  "qt (score_cell grid dm d_op i sc) =
     (if grid ! i \<noteq> 0 \<or> (dm i = 99 \<and> d_op i = 99) then qt sc
      else if dm i < d_op i then qt sc + 1 else if d_op i < dm i then qt sc - 1 else qt sc)"
  "kt (score_cell grid dm d_op i sc) =
     (if grid ! i \<noteq> 0 \<or> (dm i = 99 \<and> d_op i = 99) then kt sc
      else if dm i < d_op i then (if dm i < 4 then kt sc + real_of_int (4 - int (dm i)) else kt sc)
      else if d_op i < dm i then (if d_op i < 4 then kt sc - real_of_int (4 - int (d_op i)) else kt sc)
      else kt sc)"
  "qp (score_cell grid dm d_op i sc) =
     (if grid ! i \<noteq> 0 \<or> (dm i = 99 \<and> d_op i = 99) then qp sc
      else qp sc + (if dm i < 9 then POW2 ! dm i else 0) - (if d_op i < 9 then POW2 ! d_op i else 0))"
  "kp (score_cell grid dm d_op i sc) = kp_step grid dm d_op i (kp sc)"
  "mob (score_cell grid dm d_op i sc) = mob sc"
  unfolding score_cell_def kp_step_def Let_def by simp_all

lemma fold_score_neg:
  assumes "qt sc' = - qt sc" "kt sc' = - kt sc" "qp sc' = - qp sc"
  shows "qt (fold (score_cell grid d2 d1) xs sc') = - qt (fold (score_cell grid d1 d2) xs sc) \<and>
         kt (fold (score_cell grid d2 d1) xs sc') = - kt (fold (score_cell grid d1 d2) xs sc) \<and>
         qp (fold (score_cell grid d2 d1) xs sc') = - qp (fold (score_cell grid d1 d2) xs sc)"
  using assms
proof (induction xs arbitrary: sc sc')
  case Nil
  then show ?case by simp
next
  case (Cons i xs)
  have "qt (score_cell grid d2 d1 i sc') = - qt (score_cell grid d1 d2 i sc)"
    using Cons.prems(1) by (simp add: score_cell_fields(1))
  moreover have "kt (score_cell grid d2 d1 i sc') = - kt (score_cell grid d1 d2 i sc)"
    using Cons.prems(2) by (simp add: score_cell_fields(2))
  moreover have "qp (score_cell grid d2 d1 i sc') = - qp (score_cell grid d1 d2 i sc)"
    using Cons.prems(3) by (simp add: score_cell_fields(3))
  ultimately show ?case using Cons.IH by simp
qed

lemma fold_score_kp:
  "kp (fold (score_cell grid dm d_op) xs sc) = fold (kp_step grid dm d_op) xs (kp sc)"
  by (induction xs arbitrary: sc) (simp_all add: score_cell_fields(4))

lemma raw_scores_fields:
  fixes grid :: Board and p :: int
  assumes "p \<noteq> 0"
  defines "my \<equiv> filter (\<lambda>i. grid ! i = p) [0..<64]"
  defines "op \<equiv> filter (\<lambda>i. grid ! i = - p) [0..<64]"
  defines "z \<equiv> \<lparr>qt = 0, kt = 0, qp = 0, kp = 0, mob = 0\<rparr>"
  shows "qt (raw_scores grid p) = qt (fold (score_cell grid (run_bfs grid my) (run_bfs grid op)) [0..<64] z)"
    and "kt (raw_scores grid p) = kt (fold (score_cell grid (run_bfs grid my) (run_bfs grid op)) [0..<64] z)"
    and "qp (raw_scores grid p) = qp (fold (score_cell grid (run_bfs grid my) (run_bfs grid op)) [0..<64] z)"
    and "kp (raw_scores grid p) = fold (kp_step grid (run_bfs grid my) (run_bfs grid op)) [0..<64] 0"
    and "mob (raw_scores grid p) = real_of_int (calc_mobility grid my - calc_mobility grid op)"
  unfolding raw_scores_def Let_def collect_pieces_eq[OF assms(1)] my_def op_def z_def
  by (simp_all add: fold_score_kp)

text \<open>
  Claim C6, as the code has it. For every board and either side, the raw components
  territory \<open>qt\<close>, near-territory \<open>kt\<close>, position \<open>qp\<close> and mobility \<open>mob\<close> of the evaluator,
  taken before the weighted sum and the squashing, change sign when the roles of self and
  opponent are exchanged. The components do not depend on the move number. The fifth
  component, near-position \<open>kp\<close>, is left out: the code rounds after each addition and
  each subtraction, and exchanging the roles exchanges their order.
\<close>

theorem raw_components_antisymmetric:
  assumes "root_player = BLACK \<or> root_player = WHITE"
  shows "qt (raw_scores grid (- root_player)) = - qt (raw_scores grid root_player) \<and>
         kt (raw_scores grid (- root_player)) = - kt (raw_scores grid root_player) \<and>
         qp (raw_scores grid (- root_player)) = - qp (raw_scores grid root_player) \<and>
         mob (raw_scores grid (- root_player)) = - mob (raw_scores grid root_player)"
proof -
  have p: "root_player \<noteq> 0" "- root_player \<noteq> 0" using assms by auto
  let ?my = "filter (\<lambda>i. grid ! i = root_player) [0..<64]"
  let ?op = "filter (\<lambda>i. grid ! i = - root_player) [0..<64]"
  let ?z = "\<lparr>qt = 0, kt = 0, qp = 0, kp = 0, mob = 0\<rparr>"
  note a = raw_scores_fields[OF p(1), of grid]
  note b = raw_scores_fields[OF p(2), of grid, simplified]
  have z: "qt ?z = - qt ?z" "kt ?z = - kt ?z" "qp ?z = - qp ?z" by simp_all
  note f = fold_score_neg[OF z, of grid "run_bfs grid ?op" "run_bfs grid ?my" "[0..<64]"]
  show ?thesis
    unfolding a(1,2,3,5) b(1,2,3,5) using f by simp
qed

theorem raw_components_antisymmetric_witness:
  "qt (raw_scores board_after_first WHITE) = - qt (raw_scores board_after_first BLACK) \<and>
   kt (raw_scores board_after_first WHITE) = - kt (raw_scores board_after_first BLACK) \<and>
   qp (raw_scores board_after_first WHITE) = - qp (raw_scores board_after_first BLACK) \<and>
   mob (raw_scores board_after_first WHITE) = - mob (raw_scores board_after_first BLACK) \<and>
   mob (raw_scores board_after_first BLACK) = - 6"
proof -
  have s: "BLACK = BLACK \<or> BLACK = WHITE" by simp
  have m: "mob (raw_scores board_after_first BLACK) = - 6"
    using board_after_first_facts(4,5) board_after_first_mobility(1,2)
    by (simp add: mob_raw_scores collect_pieces_eq)
  from raw_components_antisymmetric[OF s, of board_after_first] m show ?thesis by simp
qed

lemma fold_kp_cong:
  assumes "map dm xs = map dm' xs" "map d_op xs = map d_op' xs"
  shows "fold (kp_step grid dm d_op) xs k = fold (kp_step grid dm' d_op') xs k"
  using assms by (induction xs arbitrary: k) (simp_all add: kp_step_def)

lemma start_dist:
  "map (run_bfs new_Board [2, 16, 40, 58]) [0..<64] =
     map (nth [2, 1, 0, 1, 2, 99, 4, 5, 1, 1, 1, 1, 2, 3, 4, 5, 0, 1, 2, 2, 2, 3, 4, 99,
               1, 1, 2, 3, 3, 3, 4, 5, 1, 1, 2, 3, 3, 3, 4, 5, 0, 1, 2, 2, 2, 3, 4, 99,
               1, 1, 1, 1, 2, 3, 4, 5, 2, 1, 0, 1, 2, 99, 4, 5]) [0..<64]"
  "map (run_bfs new_Board [5, 23, 47, 61]) [0..<64] =
     map (nth [5, 4, 99, 2, 1, 0, 1, 2, 5, 4, 3, 2, 1, 1, 1, 1, 99, 4, 3, 2, 2, 2, 1, 0,
               5, 4, 3, 3, 3, 2, 1, 1, 5, 4, 3, 3, 3, 2, 1, 1, 99, 4, 3, 2, 2, 2, 1, 0,
               5, 4, 3, 2, 1, 1, 1, 1, 5, 4, 99, 2, 1, 0, 1, 2]) [0..<64]"
  by code_simp+

lemma start_pieces:
  "filter (\<lambda>i. new_Board ! i = BLACK) [0..<64] = [2, 16, 40, 58]"
  "filter (\<lambda>i. new_Board ! i = WHITE) [0..<64] = [5, 23, 47, 61]"
  by code_simp+

lemma norm_exp_numeral:
  "norm_exp (numeral k) x =
     (if 2 \<le> x then norm_exp (pred_numeral k) (x / 2) + 1
      else if x < 1 then norm_exp (pred_numeral k) (x * 2) - 1
      else 0)"
  by (simp add: numeral_eq_Suc)

lemmas fl_eval = fl64_def Let_def rne_def pow2_def norm_exp_numeral

lemma fold_upt_step:
  "fold f [i..<j] k = (if i < j then fold f [Suc i..<j] (f i k) else k)"
  by (simp add: upt_conv_Cons)

lemma new_Board_cells: "new_Board = [0, 0, 1, 0, 0, - 1, 0, 0, 0, 0, 0, 0, 0, 0, 0, 0, 1, 0, 0, 0, 0, 0, 0, - 1, 0, 0, 0, 0, 0, 0, 0, 0, 0, 0, 0, 0, 0, 0, 0, 0, 1, 0, 0, 0, 0, 0, 0, - 1, 0, 0, 0, 0, 0, 0, 0, 0, 0, 0, 1, 0, 0, - 1, 0, 0]"
  by code_simp

lemma start_kp_black:
  "fold (kp_step new_Board (nth [2, 1, 0, 1, 2, 99, 4, 5, 1, 1, 1, 1, 2, 3, 4, 5, 0, 1, 2, 2, 2, 3, 4, 99, 1, 1, 2, 3, 3, 3, 4, 5, 1, 1, 2, 3, 3, 3, 4, 5, 0, 1, 2, 2, 2, 3, 4, 99, 1, 1, 1, 1, 2, 3, 4, 5, 2, 1, 0, 1, 2, 99, 4, 5]) (nth [5, 4, 99, 2, 1, 0, 1, 2, 5, 4, 3, 2, 1, 1, 1, 1, 99, 4, 3, 2, 2, 2, 1, 0, 5, 4, 3, 3, 3, 2, 1, 1, 5, 4, 3, 3, 3, 2, 1, 1, 99, 4, 3, 2, 2, 2, 1, 0, 5, 4, 3, 2, 1, 1, 1, 1, 5, 4, 99, 2, 1, 0, 1, 2])) [0..<64] 0 = - (7 / 4) / 2 ^ 52"
  unfolding new_Board_cells
  by (simp add: fold_upt_step kp_step_def fl_eval)

lemma start_kp_white:
  "fold (kp_step new_Board (nth [5, 4, 99, 2, 1, 0, 1, 2, 5, 4, 3, 2, 1, 1, 1, 1, 99, 4, 3, 2, 2, 2, 1, 0, 5, 4, 3, 3, 3, 2, 1, 1, 5, 4, 3, 3, 3, 2, 1, 1, 99, 4, 3, 2, 2, 2, 1, 0, 5, 4, 3, 2, 1, 1, 1, 1, 5, 4, 99, 2, 1, 0, 1, 2]) (nth [2, 1, 0, 1, 2, 99, 4, 5, 1, 1, 1, 1, 2, 3, 4, 5, 0, 1, 2, 2, 2, 3, 4, 99, 1, 1, 2, 3, 3, 3, 4, 5, 1, 1, 2, 3, 3, 3, 4, 5, 0, 1, 2, 2, 2, 3, 4, 99, 1, 1, 1, 1, 2, 3, 4, 5, 2, 1, 0, 1, 2, 99, 4, 5])) [0..<64] 0 = 1 / 2 ^ 55"
  unfolding new_Board_cells
  by (simp add: fold_upt_step kp_step_def fl_eval)

text \<open>
  The near-position component is not antisymmetric. On the starting position the code's
  double accumulation gives \<open>-1.75 * 2^(-52)\<close> for Black and \<open>2^(-55)\<close> for White, where
  the sum of the exact fractions is 0 for both.
\<close>

theorem near_position_counterexample:
  "kp (raw_scores new_Board BLACK) = - (7 / 4) / 2 ^ 52 \<and>
   kp (raw_scores new_Board WHITE) = 1 / 2 ^ 55 \<and>
   kp (raw_scores new_Board WHITE) \<noteq> - kp (raw_scores new_Board BLACK)"
proof -
  have b: "kp (raw_scores new_Board BLACK) = - (7 / 4) / 2 ^ 52"
    unfolding raw_scores_fields(4)[of BLACK new_Board, simplified] start_pieces
      fold_kp_cong[OF start_dist(1) start_dist(2)]
    by (rule start_kp_black)
  have w: "kp (raw_scores new_Board WHITE) = 1 / 2 ^ 55"
    unfolding raw_scores_fields(4)[of WHITE new_Board, simplified] start_pieces
      fold_kp_cong[OF start_dist(2) start_dist(1)]
    by (rule start_kp_white)
  show ?thesis unfolding b w by simp
qed

end
